theory Spec2Isabelle
  imports Main
begin

section \<open>JavaScript string operations used by the analyzer\<close>

text \<open>
  A JavaScript string is modelled as a HOL \<open>string\<close>: a list of characters, each one code
  unit in the range 0..255. All patterns of the source are ASCII. The line feed is
  \<open>CHR 0x0A\<close>, the carriage return \<open>CHR 0x0D\<close>.
\<close>

definition LF :: char where
  "LF = CHR 0x0A"

definition CR :: char where
  "CR = CHR 0x0D"

text \<open>\<^verbatim>\<open>s.startsWith(p)\<close>\<close>

definition startsWith :: "string \<Rightarrow> string \<Rightarrow> bool" where
  "startsWith s p = (take (length p) s = p)"

text \<open>\<^verbatim>\<open>s.includes(p)\<close>: \<open>p\<close> occurs somewhere in \<open>s\<close>.\<close>

fun includes_str :: "string \<Rightarrow> string \<Rightarrow> bool" where
  "includes_str [] p = (p = [])"
| "includes_str (c # cs) p = (startsWith (c # cs) p \<or> includes_str cs p)"

text \<open>
  \<^verbatim>\<open>s.split(sep)\<close> for a one-character separator: the result is never empty, the empty
  string gives one empty piece, and a trailing separator gives a trailing empty piece.
\<close>

primrec split_on :: "char \<Rightarrow> string \<Rightarrow> string list" where
  "split_on sep [] = [[]]"
| "split_on sep (c # cs) =
     (let r = split_on sep cs in if c = sep then [] # r else (c # hd r) # tl r)"

text \<open>\<^verbatim>\<open>pieces.join(sep)\<close>; the empty array gives the empty string.\<close>

fun join :: "string \<Rightarrow> string list \<Rightarrow> string" where
  "join sep [] = []"
| "join sep [l] = l"
| "join sep (l # m # ls) = l @ sep @ join sep (m # ls)"

section \<open>Regular expressions as backtracking matchers\<close>

text \<open>
  A matcher maps the remaining input to the list of inputs that may remain after a match,
  in the order in which a backtracking engine tries them (greedy quantifiers try the
  longest repetition first). The first element of the list for a whole pattern is the match
  that the engine reports.
\<close>

type_synonym matcher = "string \<Rightarrow> string list"

definition lit :: "string \<Rightarrow> matcher" where
  "lit p s = (if startsWith s p then [drop (length p) s] else [])"

text \<open>\<open>many P\<close> is the greedy \<^verbatim>\<open>[P]*\<close>, \<open>many1 P\<close> the greedy \<^verbatim>\<open>[P]+\<close>.\<close>

fun many :: "(char \<Rightarrow> bool) \<Rightarrow> matcher" where
  "many P [] = [[]]"
| "many P (c # cs) = (if P c then many P cs @ [c # cs] else [c # cs])"

definition many1 :: "(char \<Rightarrow> bool) \<Rightarrow> matcher" where
  "many1 P s = (case s of [] \<Rightarrow> [] | c # cs \<Rightarrow> if P c then many P cs else [])"

text \<open>\<open>opt ch\<close> is the greedy \<^verbatim>\<open>ch?\<close>: consuming the character is tried first.\<close>

definition opt :: "char \<Rightarrow> matcher" where
  "opt ch s = (case s of [] \<Rightarrow> [s] | c # cs \<Rightarrow> if c = ch then [cs, s] else [s])"

definition seq :: "matcher \<Rightarrow> matcher \<Rightarrow> matcher" where
  "seq m1 m2 s = concat (map m2 (m1 s))"

text \<open>\<^verbatim>\<open>\d\<close> matches the ASCII digits only.\<close>

definition is_digit :: "char \<Rightarrow> bool" where
  "is_digit c = (c \<in> set ''0123456789'')"

text \<open>
  \<^verbatim>\<open>parseInt\<close> on a non-empty string of ASCII digits (all that the capture group of the
  hunk-header pattern can hold): its decimal value. Numbers are modelled as unbounded
  naturals.
\<close>

definition digit_val :: "char \<Rightarrow> nat" where
  "digit_val c = of_char c - 48"

definition parseInt :: "string \<Rightarrow> nat" where
  "parseInt ds = foldl (\<lambda>n c. 10 * n + digit_val c) 0 ds"

section \<open>CodeAnalyzer.extractLineNumbers\<close>

text \<open>
  \<^verbatim>\<open>line.match(/^@@ -\d+,?\d* \+(\d+),?\d* @@/)\<close>: the pattern is anchored at the start of
  the line. \<open>hunkHeader_matches\<close> lists the captures of group 1 of all matches in
  backtracking order; \<open>match_hunkHeader\<close> is \<^verbatim>\<open>hunkHeader[1]\<close> of the reported match, or
  \<open>None\<close> for \<^verbatim>\<open>null\<close>.
\<close>

definition hunkHeader_matches :: "string \<Rightarrow> string list" where
  "hunkHeader_matches line =
     [take (length r1 - length r2) r1.
        r1 \<leftarrow> seq (lit ''@@ -'') (seq (many1 is_digit) (seq (opt CHR '','')
                (seq (many is_digit) (lit '' +'')))) line,
        r2 \<leftarrow> many1 is_digit r1,
        r3 \<leftarrow> seq (opt CHR '','') (seq (many is_digit) (lit '' @@'')) r2]"

definition match_hunkHeader :: "string \<Rightarrow> string option" where
  "match_hunkHeader line = (case hunkHeader_matches line of [] \<Rightarrow> None | g # _ \<Rightarrow> Some g)"

text \<open>
  The body of the \<^verbatim>\<open>forEach\<close> callback, on the pair of the running \<^verbatim>\<open>currentLine\<close> and
  the \<^verbatim>\<open>lineNumbers\<close> collected so far.
\<close>

definition extract_step :: "nat \<times> nat list \<Rightarrow> string \<Rightarrow> nat \<times> nat list" where
  "extract_step st line =
     (case st of (currentLine, lineNumbers) \<Rightarrow>
        (case match_hunkHeader line of
           Some g \<Rightarrow> (parseInt g, lineNumbers)
         | None \<Rightarrow>
             if startsWith line ''+'' \<and> \<not> startsWith line ''+++''
             then (currentLine + 1, lineNumbers @ [currentLine])
             else if \<not> startsWith line ''-'' \<and> \<not> startsWith line ''---''
             then (currentLine + 1, lineNumbers)
             else (currentLine, lineNumbers)))"

definition extractLineNumbers :: "string \<Rightarrow> nat list" where
  "extractLineNumbers patch = snd (foldl extract_step (1, []) (split_on LF patch))"

section \<open>CodeAnalyzer.parseFileInfo\<close>

record fileInfo =
  filename :: string
  status :: string
  additions :: nat
  deletions :: nat
  patch :: string

definition init_fileInfo :: fileInfo where
  "init_fileInfo =
     \<lparr>filename = [], status = ''modified'', additions = 0, deletions = 0, patch = []\<rparr>"

text \<open>
  In a pattern without the \<^verbatim>\<open>s\<close> flag, \<^verbatim>\<open>.\<close> matches every character but a line
  terminator.
\<close>

definition is_line_terminator :: "char \<Rightarrow> bool" where
  "is_line_terminator c = (c = LF \<or> c = CR)"

definition dot :: "char \<Rightarrow> bool" where
  "dot c = (\<not> is_line_terminator c)"

text \<open>
  \<^verbatim>\<open>line.match(/a\/(.+) b\/(.+)/)\<close>: the pattern is not anchored, so the engine tries the
  start positions from left to right. \<open>filename_matches\<close> lists the captures of group 2 of
  the matches that start at the beginning of its input; \<open>match_filename\<close> is \<^verbatim>\<open>match[2]\<close>.
\<close>

definition filename_matches :: "string \<Rightarrow> string list" where
  "filename_matches s =
     [take (length r1 - length r2) r1.
        r1 \<leftarrow> seq (lit ''a/'') (seq (many1 dot) (lit '' b/'')) s,
        r2 \<leftarrow> many1 dot r1]"

fun regex_search :: "(string \<Rightarrow> 'a list) \<Rightarrow> string \<Rightarrow> 'a option" where
  "regex_search m [] = (case m [] of [] \<Rightarrow> None | x # _ \<Rightarrow> Some x)"
| "regex_search m (c # cs) = (case m (c # cs) of [] \<Rightarrow> regex_search m cs | x # _ \<Rightarrow> Some x)"

definition match_filename :: "string \<Rightarrow> string option" where
  "match_filename line = regex_search filename_matches line"

text \<open>The body of the \<^verbatim>\<open>for\<close> loop up to the test for the patch start.\<close>

definition scan_line :: "fileInfo \<Rightarrow> string \<Rightarrow> fileInfo" where
  "scan_line fi line =
     (let fi1 =
            (if startsWith line '' a/'' \<and> includes_str line '' b/''
             then (case match_filename line of
                     Some m2 \<Rightarrow> fi\<lparr>filename := m2\<rparr>
                   | None \<Rightarrow> fi)
             else fi)
      in if startsWith line ''new file mode'' then fi1\<lparr>status := ''added''\<rparr>
         else if startsWith line ''deleted file mode'' then fi1\<lparr>status := ''deleted''\<rparr>
         else if startsWith line ''rename from'' then fi1\<lparr>status := ''renamed''\<rparr>
         else fi1)"

text \<open>
  The \<^verbatim>\<open>for\<close> loop over the lines from index \<open>i\<close> on: it returns the record and
  \<^verbatim>\<open>patchStartIndex\<close>, which stays \<open>-1\<close> when no line starts with \<^verbatim>\<open>@@\<close>; the loop
  breaks at the first such line.
\<close>

fun scan_loop :: "string list \<Rightarrow> nat \<Rightarrow> fileInfo \<Rightarrow> fileInfo \<times> int" where
  "scan_loop [] i fi = (fi, - 1)"
| "scan_loop (line # rest) i fi =
     (let fi' = scan_line fi line
      in if startsWith line ''@@'' then (fi', int i) else scan_loop rest (i + 1) fi')"

text \<open>The callback that counts additions and deletions, on the pair of both counters.\<close>

definition count_step :: "nat \<times> nat \<Rightarrow> string \<Rightarrow> nat \<times> nat" where
  "count_step cnt line =
     (case cnt of (a, d) \<Rightarrow>
        if startsWith line ''+'' \<and> \<not> startsWith line ''+++'' then (a + 1, d)
        else if startsWith line ''-'' \<and> \<not> startsWith line ''---'' then (a, d + 1)
        else (a, d))"

text \<open>The \<^verbatim>\<open>fileInfo\<close> object as it is when \<^verbatim>\<open>parseFileInfo\<close> reaches its \<^verbatim>\<open>return\<close>.\<close>

definition fileInfo_of :: "string list \<Rightarrow> fileInfo" where
  "fileInfo_of lines =
     (case scan_loop lines 0 init_fileInfo of
        (fi, patchStartIndex) \<Rightarrow>
          if patchStartIndex \<ge> 0 then
            (let patchLines = drop (nat patchStartIndex) lines;
                 cnt = foldl count_step (additions fi, deletions fi) patchLines
             in fi\<lparr>patch := join [LF] patchLines, additions := fst cnt, deletions := snd cnt\<rparr>)
          else fi)"

text \<open>\<open>None\<close> is the \<^verbatim>\<open>null\<close> returned when the filename is the empty string.\<close>

definition parseFileInfo :: "string list \<Rightarrow> fileInfo option" where
  "parseFileInfo lines =
     (let fileInfo = fileInfo_of lines
      in if filename fileInfo \<noteq> [] then Some fileInfo else None)"

section \<open>CodeAnalyzer.parseGitDiff\<close>

text \<open>
  \<^verbatim>\<open>diff.split(/^diff --git/m)\<close>: with the \<^verbatim>\<open>m\<close> flag, \<^verbatim>\<open>^\<close> matches at the start of the
  input and after every line terminator. \<open>bol\<close> says whether the position is such a line
  start, \<open>acc\<close> holds the current piece reversed. After a separator the scan resumes behind
  it, where the previous character is not a line terminator.
\<close>

fun split_diff :: "bool \<Rightarrow> string \<Rightarrow> string \<Rightarrow> string list" where
  "split_diff bol acc [] = [rev acc]"
| "split_diff bol acc (c # cs) =
     (if bol \<and> startsWith (c # cs) ''diff --git''
      then rev acc # split_diff False [] (drop 10 (c # cs))
      else split_diff (is_line_terminator c) (c # acc) cs)"

text \<open>
  \<^verbatim>\<open>s.trim()\<close> strips white space and line terminators from both ends; among the code
  units below 256 these are TAB, LF, VT, FF, CR, SP and NBSP.
\<close>

definition is_space :: "char \<Rightarrow> bool" where
  "is_space c = (c \<in> {CHR 0x09, CHR 0x0A, CHR 0x0B, CHR 0x0C, CHR 0x0D, CHR 0x20, CHR 0xA0})"

definition trim :: "string \<Rightarrow> string" where
  "trim s = rev (dropWhile is_space (rev (dropWhile is_space s)))"

text \<open>The \<^verbatim>\<open>forEach\<close> callback of \<^verbatim>\<open>parseGitDiff\<close>, on the \<^verbatim>\<open>files\<close> array.\<close>

definition section_step :: "fileInfo list \<Rightarrow> string \<Rightarrow> fileInfo list" where
  "section_step files section =
     (if trim section = [] then files
      else (case parseFileInfo (split_on LF section) of
              Some fileInfo \<Rightarrow> files @ [fileInfo]
            | None \<Rightarrow> files))"

definition parseGitDiff :: "string \<Rightarrow> fileInfo list" where
  "parseGitDiff diff = foldl section_step [] (split_diff True [] diff)"

section \<open>PRReviewService\<close>

subsection \<open>Values of the issue finder\<close>

text \<open>
  The analysis comes from \<^verbatim>\<open>JSON.parse\<close> or from the text fallback, so a field of an issue
  record may hold any JSON value or be absent. Numbers are modelled as integers, arrays
  and objects as one opaque value (both are truthy).
\<close>

datatype jsval = JUndefined | JNull | JBool bool | JNum int | JStr string | JObject

fun truthy :: "jsval \<Rightarrow> bool" where
  "truthy JUndefined = False"
| "truthy JNull = False"
| "truthy (JBool b) = b"
| "truthy (JNum n) = (n \<noteq> 0)"
| "truthy (JStr s) = (s \<noteq> [])"
| "truthy JObject = True"

text \<open>\<^verbatim>\<open>a || b\<close>\<close>

definition js_or :: "jsval \<Rightarrow> jsval \<Rightarrow> jsval" where
  "js_or a b = (if truthy a then a else b)"

record issue =
  issue_line :: jsval
  issue_title :: jsval
  issue_description :: jsval
  issue_severity :: jsval
  issue_suggestion :: jsval
  issue_example :: jsval
  issue_language :: jsval

text \<open>
  \<open>issues\<close> is \<open>None\<close> when the property is absent or falsy, and the array of issue records
  otherwise.
\<close>

record analysis =
  issues :: "issue list option"

record reviewComment =
  comment_path :: string
  comment_line :: jsval
  comment_body :: string
  comment_severity :: jsval

record review =
  review_filename :: string
  review_comments :: "reviewComment list"
  review_analysis :: analysis

record prDetails =
  pr_title :: string
  pr_body :: "string option"

record reviewContext =
  ctx_filename :: string
  ctx_language :: string
  ctx_prTitle :: string
  ctx_prDescription :: string
  ctx_isAngularProject :: bool
  ctx_isDotNetProject :: bool

text \<open>
  A thrown value, or the reason of a rejected promise. It is either \<^verbatim>\<open>undefined\<close> or
  \<^verbatim>\<open>null\<close> (\<open>Nullish\<close>), on which every property read throws a \<^verbatim>\<open>TypeError\<close>, or a
  value whose \<^verbatim>\<open>status\<close> and \<^verbatim>\<open>message\<close> properties read as the two given values
  (\<open>JUndefined\<close> for a property it does not have). The \<^verbatim>\<open>TypeError\<close> of the engine and
  \<^verbatim>\<open>new Error(msg)\<close> are values of the second kind; the text of the engine's message is
  not modelled. Values are plain data: a property read on a value of the second kind
  returns (accessors that throw are outside the model), and rendering a value in a
  template string always gives a string.
\<close>

datatype thrown = Nullish | ErrorObject jsval jsval

definition TypeError :: thrown where
  "TypeError = ErrorObject JUndefined (JStr ''TypeError'')"

definition new_Error :: "string \<Rightarrow> thrown" where
  "new_Error msg = ErrorObject JUndefined (JStr msg)"

subsection \<open>parseAnalysisToComments\<close>

text \<open>
  \<^verbatim>\<open>formatComment\<close> renders the comment body from the issue; the body plays no part in
  what follows, so the rendering is a parameter.
\<close>

definition comment_of :: "(issue \<Rightarrow> string) \<Rightarrow> fileInfo \<Rightarrow> issue \<Rightarrow> reviewComment" where
  "comment_of formatComment file issue =
     \<lparr>comment_path = filename file,
      comment_line = js_or (issue_line issue) (JNum 1),
      comment_body = formatComment issue,
      comment_severity = js_or (issue_severity issue) (JStr ''info'')\<rparr>"

definition parseAnalysisToComments ::
    "(issue \<Rightarrow> string) \<Rightarrow> analysis \<Rightarrow> fileInfo \<Rightarrow> reviewComment list" where
  "parseAnalysisToComments formatComment analysis file =
     (case issues analysis of
        None \<Rightarrow> []
      | Some is \<Rightarrow>
          foldl (\<lambda>comments issue. comments @ [comment_of formatComment file issue]) [] is)"

subsection \<open>File relevance\<close>

text \<open>\<^verbatim>\<open>s.toLowerCase()\<close> on code units below 256: A-Z and the Latin-1 capitals.\<close>

definition lower_char :: "char \<Rightarrow> char" where
  "lower_char c =
     (let n = (of_char c :: nat)
      in if (65 \<le> n \<and> n \<le> 90) \<or> (192 \<le> n \<and> n \<le> 222 \<and> n \<noteq> 215)
         then char_of (n + 32) else c)"

definition toLowerCase :: "string \<Rightarrow> string" where
  "toLowerCase s = map lower_char s"

text \<open>\<^verbatim>\<open>'.' + filename.split('.').pop()\<close>\<close>

definition getFileExtension :: "string \<Rightarrow> string" where
  "getFileExtension fname = ''.'' @ last (split_on CHR ''.'' fname)"

definition languageMap :: "(string \<times> string) list" where
  "languageMap =
     [(''.ts'', ''typescript''), (''.tsx'', ''typescript''), (''.js'', ''javascript''),
      (''.jsx'', ''javascript''), (''.html'', ''html''), (''.scss'', ''scss''),
      (''.css'', ''css''), (''.cs'', ''csharp''), (''.vb'', ''vb.net''), (''.fs'', ''fsharp''),
      (''.razor'', ''razor''), (''.cshtml'', ''razor''), (''.json'', ''json''),
      (''.xml'', ''xml''), (''.yml'', ''yaml''), (''.yaml'', ''yaml'')]"

text \<open>
  The argument is always an extension, which begins with a dot, so the lookup never reaches
  a property inherited from the object prototype.
\<close>

definition detectLanguage :: "string \<Rightarrow> string" where
  "detectLanguage extension =
     (case map_of languageMap (toLowerCase extension) of
        Some language \<Rightarrow> language
      | None \<Rightarrow> ''text'')"

definition relevantExtensions :: "string list" where
  "relevantExtensions =
     [''.ts'', ''.js'', ''.tsx'', ''.jsx'', ''.html'', ''.scss'', ''.css'',
      ''.cs'', ''.vb'', ''.fs'', ''.razor'', ''.cshtml'',
      ''.json'', ''.xml'', ''.yml'', ''.yaml'']"

definition isRelevantFile :: "string \<Rightarrow> string \<Rightarrow> bool" where
  "isRelevantFile language extension = (toLowerCase extension \<in> set relevantExtensions)"

definition filterRelevantFiles :: "fileInfo list \<Rightarrow> fileInfo list" where
  "filterRelevantFiles files =
     filter (\<lambda>file. let extension = getFileExtension (filename file)
                    in isRelevantFile (detectLanguage extension) extension) files"

text \<open>
  \<^verbatim>\<open>prDetails.title + ' ' + prDetails.body\<close>: a \<^verbatim>\<open>null\<close> body is rendered as the text
  \<^verbatim>\<open>null\<close>.
\<close>

definition pr_content :: "prDetails \<Rightarrow> string" where
  "pr_content prDetails =
     toLowerCase (pr_title prDetails @ '' '' @
       (case pr_body prDetails of None \<Rightarrow> ''null'' | Some b \<Rightarrow> b))"

definition isAngularProject :: "prDetails \<Rightarrow> bool" where
  "isAngularProject prDetails =
     list_ex (\<lambda>indicator. includes_str (pr_content prDetails) indicator)
       [''angular'', ''@angular'', ''ng-'', ''angular.json'', ''package.json'',
        ''component.ts'', ''service.ts'', ''module.ts'']"

definition isDotNetProject :: "prDetails \<Rightarrow> bool" where
  "isDotNetProject prDetails =
     list_ex (\<lambda>indicator. includes_str (pr_content prDetails) indicator)
       [''.net'', ''dotnet'', ''csharp'', ''c#'', ''.cs'', ''.csproj'',
        ''asp.net'', ''blazor'', ''razor'', ''entity framework'']"

subsection \<open>reviewFile and the per-file loop of reviewPR\<close>

text \<open>
  \<^verbatim>\<open>reviewFile\<close> and the loop take the issue finder (\<^verbatim>\<open>openaiService.analyzeCode\<close>) as a
  parameter: an awaited call that reads and changes a state \<open>'w\<close> behind it, and either
  rejects with a thrown value (\<open>Inl\<close>) or resolves with an analysis (\<open>Inr\<close>). The finder
  of the service is \<open>analyzeCode\<close>, defined below.
\<close>

type_synonym 'w finder = "'w \<Rightarrow> string \<Rightarrow> reviewContext \<Rightarrow> (thrown + analysis) \<times> 'w"

text \<open>What the service writes to the spinner and the logger, one constructor per call.\<close>

datatype event =
    Reviewing string
  | Reviewed string nat
  | NoIssuesFound string
  | FailedToReview string jsval
  | LoggedError string thrown
  | Skipping string

record 'w env =
  world :: 'w
  console :: "event list"

definition emit :: "event \<Rightarrow> 'w env \<Rightarrow> 'w env" where
  "emit e env = env\<lparr>console := console env @ [e]\<rparr>"

text \<open>The \<^verbatim>\<open>context\<close> object that \<^verbatim>\<open>reviewFile\<close> hands to the issue finder.\<close>

definition context_of :: "string \<Rightarrow> fileInfo \<Rightarrow> prDetails \<Rightarrow> reviewContext" where
  "context_of language file prDetails =
     \<lparr>ctx_filename = filename file,
      ctx_language = language,
      ctx_prTitle = pr_title prDetails,
      ctx_prDescription = (case pr_body prDetails of None \<Rightarrow> [] | Some b \<Rightarrow> b),
      ctx_isAngularProject = isAngularProject prDetails,
      ctx_isDotNetProject = isDotNetProject prDetails\<rparr>"

text \<open>
  \<^verbatim>\<open>reviewFile\<close> returns \<open>Inr None\<close> for \<^verbatim>\<open>null\<close>, \<open>Inr (Some review)\<close> for a review, and
  \<open>Inl error\<close> when the awaited issue finder rejects.
\<close>

definition reviewFile ::
    "'w finder \<Rightarrow> (issue \<Rightarrow> string) \<Rightarrow> int \<Rightarrow> fileInfo \<Rightarrow> prDetails \<Rightarrow> 'w env
      \<Rightarrow> (thrown + review option) \<times> 'w env" where
  "reviewFile analyzeCode formatComment maxDiffSize file prDetails env =
     (let fileExtension = getFileExtension (filename file);
          language = detectLanguage fileExtension
      in if \<not> isRelevantFile language fileExtension then (Inr None, env)
         else
           (let diff = patch file
            in if diff = [] \<or> int (length diff) > maxDiffSize
               then (Inr None, emit (Skipping (filename file)) env)
               else
                 (case analyzeCode (world env) diff (context_of language file prDetails) of
                    (Inl err, w) \<Rightarrow> (Inl err, env\<lparr>world := w\<rparr>)
                  | (Inr analysis, w) \<Rightarrow>
                      (Inr (Some
                         \<lparr>review_filename = filename file,
                          review_comments =
                            parseAnalysisToComments formatComment analysis file,
                          review_analysis = analysis\<rparr>),
                       env\<lparr>world := w\<rparr>))))"

text \<open>
  The body of the \<^verbatim>\<open>for\<close> loop of \<^verbatim>\<open>reviewPR\<close>, on the pair of the \<^verbatim>\<open>reviews\<close> array
  and the environment: the \<^verbatim>\<open>try\<close> block, and the \<^verbatim>\<open>catch\<close> block for the \<open>Inl\<close> case.
  The \<^verbatim>\<open>catch\<close> block reads \<^verbatim>\<open>error.message\<close> before it calls the spinner. On a nullish
  error this read throws a \<^verbatim>\<open>TypeError\<close> out of the \<^verbatim>\<open>catch\<close> block and out of the loop, to
  the outer \<^verbatim>\<open>catch\<close> of \<^verbatim>\<open>reviewPR\<close>, which rethrows it: the result is then \<open>Inl\<close>, the
  thrown value and the environment at that point. Otherwise the result is \<open>Inr\<close>, the
  state for the next file.
\<close>

definition review_step ::
    "'w finder \<Rightarrow> (issue \<Rightarrow> string) \<Rightarrow> int \<Rightarrow> prDetails \<Rightarrow> review list \<times> 'w env \<Rightarrow> fileInfo
      \<Rightarrow> (thrown \<times> 'w env) + (review list \<times> 'w env)" where
  "review_step analyzeCode formatComment maxDiffSize prDetails st file =
     (case st of (reviews, env) \<Rightarrow>
        (case reviewFile analyzeCode formatComment maxDiffSize file prDetails
                (emit (Reviewing (filename file)) env) of
           (Inr (Some review), env') \<Rightarrow>
             if length (review_comments review) > 0
             then Inr (reviews @ [review],
                       emit (Reviewed (filename file) (length (review_comments review))) env')
             else Inr (reviews, emit (NoIssuesFound (filename file)) env')
         | (Inr None, env') \<Rightarrow> Inr (reviews, emit (NoIssuesFound (filename file)) env')
         | (Inl err, env') \<Rightarrow>
             (case err of
                Nullish \<Rightarrow> Inl (TypeError, env')
              | ErrorObject st msg \<Rightarrow>
                  Inr (reviews,
                       emit (LoggedError (filename file) err)
                         (emit (FailedToReview (filename file) msg) env')))))"

text \<open>\<^verbatim>\<open>xs.slice(0, n)\<close>: a negative \<open>n\<close> counts from the end.\<close>

definition slice0 :: "'a list \<Rightarrow> int \<Rightarrow> 'a list" where
  "slice0 xs n = (if n < 0 then take (nat (int (length xs) + n)) xs else take (nat n) xs)"

text \<open>The \<^verbatim>\<open>for\<close> loop: an exception that leaves the body leaves the loop.\<close>

fun review_files ::
    "'w finder \<Rightarrow> (issue \<Rightarrow> string) \<Rightarrow> int \<Rightarrow> prDetails \<Rightarrow> review list \<times> 'w env
      \<Rightarrow> fileInfo list \<Rightarrow> (thrown \<times> 'w env) + (review list \<times> 'w env)" where
  "review_files analyzeCode formatComment maxDiffSize prDetails st [] = Inr st"
| "review_files analyzeCode formatComment maxDiffSize prDetails st (file # files) =
     (case review_step analyzeCode formatComment maxDiffSize prDetails st file of
        Inl thrown_env \<Rightarrow> Inl thrown_env
      | Inr st' \<Rightarrow> review_files analyzeCode formatComment maxDiffSize prDetails st' files)"

definition review_loop ::
    "'w finder \<Rightarrow> (issue \<Rightarrow> string) \<Rightarrow> int \<Rightarrow> int \<Rightarrow> prDetails \<Rightarrow> fileInfo list \<Rightarrow> 'w env
      \<Rightarrow> (thrown \<times> 'w env) + (review list \<times> 'w env)" where
  "review_loop analyzeCode formatComment maxDiffSize maxFilesPerReview prDetails
      filteredFiles env =
     review_files analyzeCode formatComment maxDiffSize prDetails ([], env)
       (slice0 filteredFiles maxFilesPerReview)"

text \<open>
  Two readings of the console: the files whose review the spinner announced, and the files
  for which it reported an outcome (a review, no issues, or a failure), in order.
\<close>

definition announced :: "event list \<Rightarrow> string list" where
  "announced es =
     List.map_filter (\<lambda>e. case e of Reviewing n \<Rightarrow> Some n | _ \<Rightarrow> None) es"

definition outcomes :: "event list \<Rightarrow> string list" where
  "outcomes es =
     List.map_filter
       (\<lambda>e. case e of
               Reviewed n k \<Rightarrow> Some n
             | NoIssuesFound n \<Rightarrow> Some n
             | FailedToReview n msg \<Rightarrow> Some n
             | _ \<Rightarrow> None) es"

subsection \<open>OpenAIService: the issue finder\<close>

text \<open>
  The chat-completions client of the OpenAI library is the external call. It reads and
  changes a world \<open>'w\<close> that the service does not see, and it either rejects with any
  thrown value, \<open>Nullish\<close> included, or resolves with a response. The request carries the
  model, the system prompt \<^verbatim>\<open>getSystemPrompt(context)\<close> and the prompt
  \<^verbatim>\<open>buildPrompt(diff, context)\<close>; both texts are computed from \<open>diff\<close> and \<open>context\<close>
  alone, so the client is given these two.
\<close>

text \<open>
  What the service reads of a response: \<open>NoMessage\<close> when reading
  \<^verbatim>\<open>response.choices[0].message.content\<close> throws a \<^verbatim>\<open>TypeError\<close>, and the content
  otherwise, which is a string or not (\<^verbatim>\<open>null\<close>, for one).
\<close>

datatype content = NotAString | Text string

datatype response = NoMessage | Message content

type_synonym 'w client =
  "'w \<Rightarrow> string option \<Rightarrow> string \<Rightarrow> reviewContext \<Rightarrow> (thrown + response) \<times> 'w"

text \<open>The lines that the service writes to the logger, one constructor per call.\<close>

datatype service_event =
    AttemptingModel "string option"
  | ModelNotAvailable "string option"
  | TryingFallback string
  | FallbackFailed string jsval
  | RequestFailed jsval
  | ParseFailed

text \<open>The state behind the issue finder: the world of the client and the service's log.\<close>

record 'w backend =
  remote :: 'w
  logged :: "service_event list"

definition note_event :: "service_event \<Rightarrow> 'w backend \<Rightarrow> 'w backend" where
  "note_event e b = b\<lparr>logged := logged b @ [e]\<rparr>"

text \<open>
  \<^verbatim>\<open>this.fallbackModels\<close>, and \<^verbatim>\<open>modelToTry || this.model\<close>, where \<^verbatim>\<open>this.model\<close> is an
  environment variable that may be unset (\<open>None\<close>).
\<close>

definition fallbackModels :: "string list" where
  "fallbackModels = [''gpt-3.5-turbo'']"

definition effective_model :: "string option \<Rightarrow> string option \<Rightarrow> string option" where
  "effective_model modelToTry thisModel =
     (case modelToTry of
        None \<Rightarrow> thisModel
      | Some m \<Rightarrow> if m \<noteq> [] then Some m else thisModel)"

text \<open>
  \<^verbatim>\<open>error.message?.includes(p)\<close>: \<^verbatim>\<open>undefined\<close> for a nullish message, the substring test
  for a string, and a \<^verbatim>\<open>TypeError\<close> for a value without an \<^verbatim>\<open>includes\<close> method (an opaque
  object is taken to have none).
\<close>

definition message_includes :: "jsval \<Rightarrow> string \<Rightarrow> thrown + bool" where
  "message_includes msg p =
     (case msg of
        JUndefined \<Rightarrow> Inr False
      | JNull \<Rightarrow> Inr False
      | JStr s \<Rightarrow> Inr (includes_str s p)
      | _ \<Rightarrow> Inl TypeError)"

text \<open>
  The condition of the \<^verbatim>\<open>if\<close> in the \<^verbatim>\<open>catch\<close> block of \<^verbatim>\<open>makeOpenAIRequest\<close>, for an
  error that is not nullish: \<^verbatim>\<open>&&\<close> and \<^verbatim>\<open>||\<close> evaluate from left to right and stop early.
\<close>

definition model_missing :: "jsval \<Rightarrow> jsval \<Rightarrow> thrown + bool" where
  "model_missing st msg =
     (if st = JNum 404 then
        (case message_includes msg ''does not exist'' of
           Inl e \<Rightarrow> Inl e
         | Inr True \<Rightarrow> Inr True
         | Inr False \<Rightarrow> message_includes msg ''do not have access'')
      else Inr False)"

text \<open>The message of the error thrown when no model is accessible.\<close>

definition none_available :: "string option \<Rightarrow> string" where
  "none_available model =
     ''None of the available models ('' @
     (case model of None \<Rightarrow> ''undefined'' | Some m \<Rightarrow> m) @ '', '' @
     join '', '' fallbackModels @
     '') are accessible with your API key. Please check your OpenAI account '' @
     ''permissions or run '' @ [CHR 0x27] @ ''npm run setup'' @ [CHR 0x27] @
     '' to reconfigure.''"

text \<open>
  \<^verbatim>\<open>makeOpenAIRequest\<close>, and the \<^verbatim>\<open>for\<close> loop over \<^verbatim>\<open>this.fallbackModels\<close> in its \<^verbatim>\<open>catch\<close>
  block, from the index \<open>i\<close> on. The \<^verbatim>\<open>catch\<close> block reads \<^verbatim>\<open>error.status\<close> first, which
  throws a \<^verbatim>\<open>TypeError\<close> on a nullish error; the inner \<^verbatim>\<open>catch\<close> reads
  \<^verbatim>\<open>fallbackError.message\<close> in the same way.
\<close>

function makeOpenAIRequest ::
    "'w client \<Rightarrow> string option \<Rightarrow> string \<Rightarrow> reviewContext \<Rightarrow> string option \<Rightarrow> 'w backend
      \<Rightarrow> (thrown + response) \<times> 'w backend"
  and try_fallbacks ::
    "'w client \<Rightarrow> string option \<Rightarrow> string \<Rightarrow> reviewContext \<Rightarrow> string option \<Rightarrow> nat
      \<Rightarrow> 'w backend \<Rightarrow> (thrown + response) \<times> 'w backend"
where
  "makeOpenAIRequest create thisModel diff ctx modelToTry b =
     (let model = effective_model modelToTry thisModel;
          b1 = note_event (AttemptingModel model) b
      in case create (remote b1) model diff ctx of
           (Inr response, w) \<Rightarrow> (Inr response, b1\<lparr>remote := w\<rparr>)
         | (Inl error, w) \<Rightarrow>
             (case error of
                Nullish \<Rightarrow> (Inl TypeError, b1\<lparr>remote := w\<rparr>)
              | ErrorObject st msg \<Rightarrow>
                  (case model_missing st msg of
                     Inl e \<Rightarrow> (Inl e, b1\<lparr>remote := w\<rparr>)
                   | Inr True \<Rightarrow>
                       try_fallbacks create thisModel diff ctx model 0
                         (note_event (ModelNotAvailable model) (b1\<lparr>remote := w\<rparr>))
                   | Inr False \<Rightarrow>
                       (Inl error, note_event (RequestFailed msg) (b1\<lparr>remote := w\<rparr>)))))"
| "try_fallbacks create thisModel diff ctx model i b =
     (if i < length fallbackModels then
        (let fallbackModel = fallbackModels ! i
         in if Some fallbackModel \<noteq> model then
              (case makeOpenAIRequest create thisModel diff ctx (Some fallbackModel)
                      (note_event (TryingFallback fallbackModel) b) of
                 (Inr response, b') \<Rightarrow> (Inr response, b')
               | (Inl fallbackError, b') \<Rightarrow>
                   (case fallbackError of
                      Nullish \<Rightarrow> (Inl TypeError, b')
                    | ErrorObject st msg \<Rightarrow>
                        try_fallbacks create thisModel diff ctx model (i + 1)
                          (note_event (FallbackFailed fallbackModel msg) b')))
            else try_fallbacks create thisModel diff ctx model (i + 1) b)
      else (Inl (new_Error (none_available model)), b))"
  by pat_completeness auto
termination
  by (relation "measure (\<lambda>x. case x of
         Inl (create, thisModel, diff, ctx, modelToTry, b) \<Rightarrow>
           (if effective_model modelToTry thisModel = Some ''gpt-3.5-turbo'' then 5 else 15)
       | Inr (create, thisModel, diff, ctx, model, i, b) \<Rightarrow>
           (if model = Some ''gpt-3.5-turbo'' then 0 else 10) + (length fallbackModels - i))")
     (auto simp: fallbackModels_def effective_model_def)

declare makeOpenAIRequest.simps [simp del] try_fallbacks.simps [simp del]

text \<open>
  \<^verbatim>\<open>parseTextAnalysis\<close> on a string: the \<^verbatim>\<open>forEach\<close> callback on the pair of the \<^verbatim>\<open>issues\<close>
  array (\<open>found\<close>) and \<^verbatim>\<open>currentIssue\<close> (its title and description; \<open>None\<close> for \<^verbatim>\<open>null\<close>). The
  \<^verbatim>\<open>category\<close> of an issue is read nowhere and is not a field of the issue record.
\<close>

definition text_issue :: "string \<times> string \<Rightarrow> issue" where
  "text_issue td =
     \<lparr>issue_line = JUndefined, issue_title = JStr (fst td), issue_description = JStr (snd td),
      issue_severity = JStr ''info'', issue_suggestion = JUndefined,
      issue_example = JUndefined, issue_language = JUndefined\<rparr>"

definition text_step ::
    "issue list \<times> (string \<times> string) option \<Rightarrow> string
      \<Rightarrow> issue list \<times> (string \<times> string) option" where
  "text_step st raw =
     (case st of (found, currentIssue) \<Rightarrow>
        (let line = trim raw
         in if seq (many1 is_digit) (lit ''.'') line \<noteq> [] then
              ((case currentIssue of
                  None \<Rightarrow> found
                | Some td \<Rightarrow> found @ [text_issue td]),
               Some ((case seq (many1 is_digit) (seq (lit ''.'') (many is_space)) line of
                        [] \<Rightarrow> line
                      | r # _ \<Rightarrow> r), []))
            else (case currentIssue of
                    None \<Rightarrow> (found, currentIssue)
                  | Some (title, description) \<Rightarrow>
                      if line \<noteq> [] then (found, Some (title, description @ line @ '' ''))
                      else (found, currentIssue))))"

definition parseTextAnalysis :: "string \<Rightarrow> analysis" where
  "parseTextAnalysis s =
     (case foldl text_step ([], None) (split_on LF s) of
        (found, currentIssue) \<Rightarrow>
          \<lparr>issues = Some (case currentIssue of
                             None \<Rightarrow> found
                           | Some td \<Rightarrow> found @ [text_issue td])\<rparr>)"

text \<open>
  \<^verbatim>\<open>analysis.match(/\{[\s\S]*\}/)\<close>: the text from the first opening brace to the last
  closing brace after it.
\<close>

definition json_block :: "string \<Rightarrow> string list" where
  "json_block s =
     [take (length s - length r) s.
        r \<leftarrow> seq (lit ''{'') (seq (many (\<lambda>c. True)) (lit ''}'')) s]"

text \<open>
  \<^verbatim>\<open>parseAnalysis\<close>. \<^verbatim>\<open>JSON.parse\<close> is a parameter: it gives the analysis, or \<open>None\<close> when
  it throws. On a content that is not a string, \<^verbatim>\<open>match\<close> throws inside the \<^verbatim>\<open>try\<close>, and
  \<^verbatim>\<open>parseTextAnalysis\<close> throws again from the \<^verbatim>\<open>catch\<close> block.
\<close>

definition parseAnalysis ::
    "(string \<Rightarrow> analysis option) \<Rightarrow> content \<Rightarrow> 'w backend \<Rightarrow> (thrown + analysis) \<times> 'w backend" where
  "parseAnalysis jsonParse analysis b =
     (case analysis of
        NotAString \<Rightarrow> (Inl TypeError, note_event ParseFailed b)
      | Text s \<Rightarrow>
          (case regex_search json_block s of
             Some block \<Rightarrow>
               (case jsonParse block of
                  Some parsed \<Rightarrow> (Inr parsed, b)
                | None \<Rightarrow> (Inr (parseTextAnalysis s), note_event ParseFailed b))
           | None \<Rightarrow> (Inr (parseTextAnalysis s), b)))"

text \<open>\<^verbatim>\<open>analyzeCode\<close>, the issue finder that \<^verbatim>\<open>reviewFile\<close> awaits.\<close>

definition analyzeCode ::
    "'w client \<Rightarrow> (string \<Rightarrow> analysis option) \<Rightarrow> string option \<Rightarrow> 'w backend finder" where
  "analyzeCode create jsonParse thisModel b diff ctx =
     (case makeOpenAIRequest create thisModel diff ctx None b of
        (Inl e, b') \<Rightarrow> (Inl e, b')
      | (Inr response, b') \<Rightarrow>
          (case response of
             NoMessage \<Rightarrow> (Inl TypeError, b')
           | Message analysis \<Rightarrow> parseAnalysis jsonParse analysis b'))"

section \<open>Facts about the string operations\<close>

lemma startsWith_Nil [simp]: "startsWith s []"
  by (simp add: startsWith_def)

lemma startsWith_Cons_Cons [simp]:
  "startsWith (c # cs) (p # ps) = (c = p \<and> startsWith cs ps)"
  by (simp add: startsWith_def)

lemma startsWith_Nil_Cons [simp]: "\<not> startsWith [] (p # ps)"
  by (simp add: startsWith_def)

lemma startsWith_append [simp]: "startsWith (p @ r) p"
  by (simp add: startsWith_def)

lemma startsWith_appendD: "startsWith s (p @ q) \<Longrightarrow> startsWith s p"
  by (metis append_eq_conv_conj startsWith_def append.assoc)

lemma startsWith_iff: "startsWith s p \<longleftrightarrow> (\<exists>r. s = p @ r)"
  by (metis append_eq_conv_conj startsWith_def)

lemma seq_lit_Nil: "\<not> startsWith s p \<Longrightarrow> seq (lit p) m s = []"
  by (simp add: seq_def lit_def)

lemma match_hunkHeader_startsWith:
  "match_hunkHeader line = Some g \<Longrightarrow> startsWith line ''@@ -''"
  by (rule ccontr) (simp add: match_hunkHeader_def hunkHeader_matches_def seq_lit_Nil)

lemma match_hunkHeader_None:
  "\<not> startsWith line ''@@ -'' \<Longrightarrow> match_hunkHeader line = None"
  using match_hunkHeader_startsWith by (cases "match_hunkHeader line") auto

lemma split_on_not_Nil [simp]: "split_on sep s \<noteq> []"
  by (induction s) (simp_all add: Let_def)

lemma split_on_no_sep: "l \<in> set (split_on sep s) \<Longrightarrow> sep \<notin> set l"
proof (induction s arbitrary: l)
  case Nil
  then show ?case by simp
next
  case (Cons c cs)
  obtain x xs where r: "split_on sep cs = x # xs"
    by (cases "split_on sep cs") simp_all
  with Cons show ?case
    by (auto simp: Let_def split: if_splits)
qed

lemma split_on_line [simp]: "sep \<notin> set l \<Longrightarrow> split_on sep l = [l]"
  by (induction l) (auto simp: Let_def)

lemma split_on_append:
  "sep \<notin> set l \<Longrightarrow> split_on sep (l @ sep # s) = l # split_on sep s"
  by (induction l) (auto simp: Let_def)

lemma split_on_join:
  "ls \<noteq> [] \<Longrightarrow> \<forall>l\<in>set ls. sep \<notin> set l \<Longrightarrow> split_on sep (join [sep] ls) = ls"
proof (induction "[sep]" ls rule: join.induct)
  case 1
  then show ?case by simp
next
  case (2 l)
  then show ?case by simp
next
  case (3 l m ls)
  then show ?case by (simp add: split_on_append)
qed

lemma join_split_on: "join [sep] (split_on sep s) = s"
proof (induction s)
  case Nil
  then show ?case by simp
next
  case (Cons c cs)
  obtain x xs where r: "split_on sep cs = x # xs"
    by (cases "split_on sep cs") simp_all
  with Cons show ?case
    by (cases xs) (auto simp: Let_def)
qed

section \<open>Facts about the line walk, the counters and the header scan\<close>

lemma hunk_line_not_plus_minus:
  "match_hunkHeader line = Some g \<Longrightarrow> \<not> startsWith line ''+'' \<and> \<not> startsWith line ''-''"
  by (auto dest!: match_hunkHeader_startsWith simp: startsWith_iff)

lemma extract_step_acc:
  "extract_step (c, ns) l =
     (fst (extract_step (c, []) l), ns @ snd (extract_step (c, []) l))"
  by (simp add: extract_step_def split: option.splits)

lemma foldl_extract_acc:
  "foldl extract_step (c, ns) ls =
     (fst (foldl extract_step (c, []) ls), ns @ snd (foldl extract_step (c, []) ls))"
proof (induction ls arbitrary: c ns)
  case Nil
  then show ?case by simp
next
  case (Cons l ls)
  obtain c' e where s: "extract_step (c, []) l = (c', e)"
    by (cases "extract_step (c, []) l")
  have "extract_step (c, ns) l = (c', ns @ e)"
    using extract_step_acc [of c ns l] s by simp
  then show ?case
    using s Cons.IH [of c' "ns @ e"] Cons.IH [of c' e] by simp
qed

lemma foldl_extract_hunk:
  assumes "match_hunkHeader h = Some g"
  shows "foldl extract_step st (pre @ h # post) =
           (fst (foldl extract_step (parseInt g, []) post),
            snd (foldl extract_step st pre) @ snd (foldl extract_step (parseInt g, []) post))"
proof -
  obtain c ns where p: "foldl extract_step st pre = (c, ns)"
    by (cases "foldl extract_step st pre")
  have "extract_step (c, ns) h = (parseInt g, ns)"
    using assms by (simp add: extract_step_def)
  then show ?thesis
    using p foldl_extract_acc [of "parseInt g" ns post] by simp
qed

lemma count_step_eq:
  "count_step (a, d) l =
     (a + (if startsWith l ''+'' \<and> \<not> startsWith l ''+++'' then 1 else 0),
      d + (if startsWith l ''-'' \<and> \<not> startsWith l ''---'' then 1 else 0))"
  by (auto simp: count_step_def startsWith_iff)

lemma foldl_count_step:
  "foldl count_step (a, d) ls =
     (a + length (filter (\<lambda>l. startsWith l ''+'' \<and> \<not> startsWith l ''+++'') ls),
      d + length (filter (\<lambda>l. startsWith l ''-'' \<and> \<not> startsWith l ''---'') ls))"
  by (induction ls arbitrary: a d) (simp_all add: count_step_eq)

lemma extract_step_length:
  "length (snd (extract_step (c, ns) l)) =
     length ns + (if startsWith l ''+'' \<and> \<not> startsWith l ''+++'' then 1 else 0)"
  by (auto simp: extract_step_def split: option.splits dest: hunk_line_not_plus_minus)

lemma foldl_extract_length:
  "length (snd (foldl extract_step (c, ns) ls)) =
     length ns + length (filter (\<lambda>l. startsWith l ''+'' \<and> \<not> startsWith l ''+++'') ls)"
proof (induction ls arbitrary: c ns)
  case Nil
  then show ?case by simp
next
  case (Cons l ls)
  obtain c' ns' where s: "extract_step (c, ns) l = (c', ns')"
    by (cases "extract_step (c, ns) l")
  then have "length ns' =
      length ns + (if startsWith l ''+'' \<and> \<not> startsWith l ''+++'' then 1 else 0)"
    using extract_step_length [of c ns l] by simp
  then show ?case
    using s Cons.IH [of c' ns'] by simp
qed

lemma scan_line_hunk: "startsWith l ''@@'' \<Longrightarrow> scan_line fi l = fi"
  by (auto simp: scan_line_def startsWith_iff)

lemma scan_line_counts:
  "additions (scan_line fi l) = additions fi \<and> deletions (scan_line fi l) = deletions fi
     \<and> patch (scan_line fi l) = patch fi"
  by (simp add: scan_line_def Let_def split: option.splits)

lemma foldl_scan_line_counts:
  "additions (foldl scan_line fi ls) = additions fi \<and>
   deletions (foldl scan_line fi ls) = deletions fi \<and>
   patch (foldl scan_line fi ls) = patch fi"
  by (induction ls arbitrary: fi) (simp_all add: scan_line_counts)

lemma scan_loop_eq:
  "scan_loop lines i fi =
     (foldl scan_line fi (takeWhile (\<lambda>l. \<not> startsWith l ''@@'') lines),
      if dropWhile (\<lambda>l. \<not> startsWith l ''@@'') lines = [] then - 1
      else int (i + length (takeWhile (\<lambda>l. \<not> startsWith l ''@@'') lines)))"
  by (induction lines arbitrary: i fi) (simp_all add: Let_def scan_line_hunk)

lemma fileInfo_of_eq:
  "fileInfo_of lines =
     (let fi = foldl scan_line init_fileInfo (takeWhile (\<lambda>l. \<not> startsWith l ''@@'') lines);
          patchLines = dropWhile (\<lambda>l. \<not> startsWith l ''@@'') lines
      in if patchLines = [] then fi
         else fi\<lparr>patch := join [LF] patchLines,
                 additions := length (filter (\<lambda>l. startsWith l ''+'' \<and> \<not> startsWith l ''+++'') patchLines),
                 deletions := length (filter (\<lambda>l. startsWith l ''-'' \<and> \<not> startsWith l ''---'') patchLines)\<rparr>)"
proof -
  have a: "additions (foldl scan_line init_fileInfo ls) = 0"
    and d: "deletions (foldl scan_line init_fileInfo ls) = 0" for ls
    using foldl_scan_line_counts [of init_fileInfo ls] by (simp_all add: init_fileInfo_def)
  show ?thesis
    by (simp add: fileInfo_of_def scan_loop_eq Let_def foldl_count_step a d dropWhile_eq_drop)
qed

lemmas eval_defs = extractLineNumbers_def LF_def extract_step_def match_hunkHeader_def
  hunkHeader_matches_def seq_def lit_def many1_def opt_def is_digit_def
  parseInt_def digit_val_def

section \<open>The Line-Address Reconciler\<close>

text \<open>
  Claim C1 says that \<^verbatim>\<open>extractLineNumbers\<close> ignores every line that begins with \<^verbatim>\<open>+++\<close>
  or \<^verbatim>\<open>---\<close>: no entry, and \<^verbatim>\<open>currentLine\<close> unchanged. The code does so for \<^verbatim>\<open>---\<close>. A
  line that begins with \<^verbatim>\<open>+++\<close> fails the test of the second branch and then passes the
  test of the third, which only excludes \<^verbatim>\<open>-\<close>: it emits no entry but advances
  \<^verbatim>\<open>currentLine\<close> by one. In the patch below the marker line moves the addition \<^verbatim>\<open>+x\<close> from
  line 1 to line 2.
\<close>

theorem C1_plus_marker_advances_counter:
  "extract_step (c, ns) (''---'' @ r) = (c, ns) \<and>
   extract_step (c, ns) (''+++'' @ r) = (c + 1, ns) \<and>
   extractLineNumbers (join [LF] [''@@ -1,1 +1,2 @@'', ''+++ b/f'', ''+x'']) = [2]"
proof (intro conjI)
  show "extract_step (c, ns) (''---'' @ r) = (c, ns)"
    by (simp add: extract_step_def match_hunkHeader_None)
  show "extract_step (c, ns) (''+++'' @ r) = (c + 1, ns)"
    by (simp add: extract_step_def match_hunkHeader_None)
  show "extractLineNumbers (join [LF] [''@@ -1,1 +1,2 @@'', ''+++ b/f'', ''+x'']) = [2]"
    by (simp add: eval_defs)
qed

text \<open>
  Claim C2: for the patch with the lines \<^verbatim>\<open>@@ -1,3 +1,4 @@\<close>, \<^verbatim>\<open> context\<close>, \<^verbatim>\<open>+added1\<close>,
  \<^verbatim>\<open> context2\<close>, \<^verbatim>\<open>+added2\<close>, \<^verbatim>\<open>-removed\<close>, \<^verbatim>\<open> context3\<close>, joined by line feeds,
  \<^verbatim>\<open>extractLineNumbers\<close> returns exactly \<open>[2, 4]\<close>.
\<close>

theorem C2_example_patch:
  "extractLineNumbers
     (join [LF] [''@@ -1,3 +1,4 @@'', '' context'', ''+added1'', '' context2'',
                 ''+added2'', ''-removed'', '' context3'']) = [2, 4]"
  by (simp add: eval_defs)

text \<open>
  Claim C3: for the two-hunk patch \<^verbatim>\<open>@@ -1,2 +1,2 @@\<close>, \<^verbatim>\<open> context\<close>, \<^verbatim>\<open>+a\<close>,
  \<^verbatim>\<open>@@ -10,2 +20,2 @@\<close>, \<^verbatim>\<open> context\<close>, \<^verbatim>\<open>+b\<close> (with or without the empty lines that the
  trailing line feeds of the two hunks leave) \<^verbatim>\<open>extractLineNumbers\<close> returns exactly
  \<open>[2, 21]\<close>. In general, whenever a line \<open>h\<close> of a patch matches the hunk-header pattern
  with capture \<open>g\<close>, the counter after \<open>h\<close> is \<open>parseInt g\<close> whatever the state before, and
  the entries for the lines after \<open>h\<close> are those of a walk that starts at \<open>parseInt g\<close>:
  they do not depend on the lines before \<open>h\<close>.
\<close>

theorem C3_hunk_header_resets_counter:
  "extractLineNumbers
     (join [LF] [''@@ -1,2 +1,2 @@'', '' context'', ''+a'',
                 ''@@ -10,2 +20,2 @@'', '' context'', ''+b'']) = [2, 21] \<and>
   extractLineNumbers
     (join [LF] [''@@ -1,2 +1,2 @@'', '' context'', ''+a'', '''',
                 ''@@ -10,2 +20,2 @@'', '' context'', ''+b'', '''']) = [2, 21] \<and>
   (split_on LF p = pre @ h # post \<and> match_hunkHeader h = Some g \<longrightarrow>
      fst (foldl extract_step st (pre @ [h])) = parseInt g \<and>
      extractLineNumbers p =
        snd (foldl extract_step (1, []) pre) @ snd (foldl extract_step (parseInt g, []) post))"
proof (intro conjI impI)
  show "extractLineNumbers
     (join [LF] [''@@ -1,2 +1,2 @@'', '' context'', ''+a'',
                 ''@@ -10,2 +20,2 @@'', '' context'', ''+b'']) = [2, 21]"
    by (simp add: eval_defs)
  show "extractLineNumbers
     (join [LF] [''@@ -1,2 +1,2 @@'', '' context'', ''+a'', '''',
                 ''@@ -10,2 +20,2 @@'', '' context'', ''+b'', '''']) = [2, 21]"
    by (simp add: eval_defs)
next
  assume a: "split_on LF p = pre @ h # post \<and> match_hunkHeader h = Some g"
  then show "fst (foldl extract_step st (pre @ [h])) = parseInt g"
    using foldl_extract_hunk [of h g st pre "[]"] by simp
  from a show "extractLineNumbers p =
        snd (foldl extract_step (1, []) pre) @ snd (foldl extract_step (parseInt g, []) post)"
    using foldl_extract_hunk [of h g "(1, [])" pre post]
    by (simp add: extractLineNumbers_def)
qed

text \<open>The general part of C3 at a concrete patch, walked from the state \<open>(7, [5])\<close>.\<close>

theorem C3_hunk_header_resets_counter_witness:
  "split_on LF (join [LF] ['' c'', ''+a'', ''@@ -10,2 +20,2 @@'', '' c'', ''+b''])
      = ['' c'', ''+a''] @ ''@@ -10,2 +20,2 @@'' # ['' c'', ''+b''] \<and>
   match_hunkHeader ''@@ -10,2 +20,2 @@'' = Some ''20'' \<and>
   fst (foldl extract_step (7, [5]) (['' c'', ''+a''] @ [''@@ -10,2 +20,2 @@''])) = 20 \<and>
   extractLineNumbers (join [LF] ['' c'', ''+a'', ''@@ -10,2 +20,2 @@'', '' c'', ''+b'']) = [2, 21]"
proof -
  have s: "split_on LF (join [LF] ['' c'', ''+a'', ''@@ -10,2 +20,2 @@'', '' c'', ''+b''])
      = ['' c'', ''+a''] @ ''@@ -10,2 +20,2 @@'' # ['' c'', ''+b'']"
    by (simp add: LF_def)
  have m: "match_hunkHeader ''@@ -10,2 +20,2 @@'' = Some ''20''"
    by (simp add: eval_defs)
  have p: "parseInt ''20'' = 20"
    by (simp add: parseInt_def digit_val_def)
  have e: "snd (foldl extract_step (1, []) ['' c'', ''+a'']) @
           snd (foldl extract_step (20, []) ['' c'', ''+b'']) = [2, 21]"
    by (simp add: eval_defs)
  show ?thesis
    using C3_hunk_header_resets_counter
      [of "join [LF] ['' c'', ''+a'', ''@@ -10,2 +20,2 @@'', '' c'', ''+b'']"
          "['' c'', ''+a'']" "''@@ -10,2 +20,2 @@''" "['' c'', ''+b'']" "''20''" "(7, [5])"]
      s m p e
    by simp
qed

text \<open>
  Claim C4: the number of entries that \<^verbatim>\<open>extractLineNumbers\<close> returns for a patch equals
  the additions count that the counting callback of \<^verbatim>\<open>parseFileInfo\<close> computes for the
  lines of the same patch. This holds for every patch string, so also for the well-formed
  single-hunk ones; and for every file section, the additions of the record that
  \<^verbatim>\<open>parseFileInfo\<close> builds equal the number of entries for the patch of that record.
\<close>

theorem C4_entries_equal_additions:
  "length (extractLineNumbers p) = fst (foldl count_step (0, 0) (split_on LF p)) \<and>
   length (extractLineNumbers (patch (fileInfo_of (split_on LF sec)))) =
     additions (fileInfo_of (split_on LF sec))"
proof
  show "length (extractLineNumbers p) = fst (foldl count_step (0, 0) (split_on LF p))"
    by (simp add: extractLineNumbers_def foldl_extract_length foldl_count_step)
  let ?N = "\<lambda>l. \<not> startsWith l ''@@''"
  let ?ls = "split_on LF sec"
  show "length (extractLineNumbers (patch (fileInfo_of ?ls))) = additions (fileInfo_of ?ls)"
  proof (cases "dropWhile ?N ?ls = []")
    case True
    have "patch (foldl scan_line init_fileInfo ls) = []"
      and "additions (foldl scan_line init_fileInfo ls) = 0" for ls
      using foldl_scan_line_counts [of init_fileInfo ls] by (simp_all add: init_fileInfo_def)
    with True show ?thesis
      by (simp add: fileInfo_of_eq Let_def extractLineNumbers_def extract_step_def
            match_hunkHeader_None)
  next
    case False
    have "\<forall>l\<in>set (dropWhile ?N ?ls). LF \<notin> set l"
      using split_on_no_sep [of _ LF sec] set_dropWhileD by fast
    with False have "split_on LF (join [LF] (dropWhile ?N ?ls)) = dropWhile ?N ?ls"
      by (rule split_on_join)
    with False show ?thesis
      by (auto simp: fileInfo_of_eq Let_def extractLineNumbers_def foldl_extract_length)
  qed
qed

section \<open>The Per-File Patch Builder and the File Section Splitter\<close>

subsection \<open>Facts about the filename pattern, the header scan and the sections\<close>

lemma many_length: "r \<in> set (many P s) \<Longrightarrow> length r \<le> length s"
  by (induction s) (auto split: if_splits)

lemma many1_length: "r \<in> set (many1 P s) \<Longrightarrow> length r < length s"
  by (cases s) (auto simp: many1_def dest: many_length split: if_splits)

lemma filename_matches_not_Nil: "x \<in> set (filename_matches s) \<Longrightarrow> x \<noteq> []"
  by (auto simp: filename_matches_def dest!: many1_length)

lemma regex_search_Some:
  "regex_search m s = Some x \<Longrightarrow> \<exists>t. x \<in> set (m t)"
proof (induction s)
  case Nil
  then show ?case
    by (cases "m []") (auto intro: exI [of _ "[]"])
next
  case (Cons c cs)
  show ?case
  proof (cases "m (c # cs)")
    case Nil
    with Cons show ?thesis by simp
  next
    case (Cons y ys)
    with Cons.prems have "x \<in> set (m (c # cs))" by simp
    then show ?thesis by blast
  qed
qed

lemma match_filename_not_Nil: "match_filename l = Some x \<Longrightarrow> x \<noteq> []"
  unfolding match_filename_def
  by (blast dest: regex_search_Some filename_matches_not_Nil)

lemma scan_line_filename:
  "filename (scan_line fi l) =
     (if startsWith l '' a/'' \<and> includes_str l '' b/''
      then (case match_filename l of Some m2 \<Rightarrow> m2 | None \<Rightarrow> filename fi)
      else filename fi)"
  by (auto simp: scan_line_def Let_def split: option.splits)

lemma scan_line_filename_keeps:
  "filename fi \<noteq> [] \<Longrightarrow> filename (scan_line fi l) \<noteq> []"
  by (auto simp: scan_line_filename split: option.splits dest: match_filename_not_Nil)

lemma foldl_scan_line_filename_keeps:
  "filename fi \<noteq> [] \<Longrightarrow> filename (foldl scan_line fi ls) \<noteq> []"
  by (induction ls arbitrary: fi) (simp_all add: scan_line_filename_keeps)

lemma foldl_scan_line_filename_iff:
  "filename (foldl scan_line fi ls) \<noteq> [] \<longleftrightarrow>
     filename fi \<noteq> [] \<or> (\<exists>l\<in>set ls. startsWith l '' a/'' \<and> includes_str l '' b/'' \<and> match_filename l \<noteq> None)"
proof (induction ls arbitrary: fi)
  case Nil
  then show ?case by simp
next
  case (Cons l ls)
  have "filename (scan_line fi l) \<noteq> [] \<longleftrightarrow>
      filename fi \<noteq> [] \<or> (startsWith l '' a/'' \<and> includes_str l '' b/'' \<and> match_filename l \<noteq> None)"
    by (auto simp: scan_line_filename split: option.splits dest: match_filename_not_Nil)
  with Cons.IH [of "scan_line fi l"] show ?case by auto
qed

lemma scan_line_status_added:
  "startsWith l ''new file mode'' \<Longrightarrow> status (scan_line fi l) = ''added''"
  by (simp add: scan_line_def Let_def split: option.splits)

lemma scan_line_status_keeps:
  "\<not> startsWith l ''deleted file mode'' \<Longrightarrow> \<not> startsWith l ''rename from'' \<Longrightarrow>
   status fi = ''added'' \<Longrightarrow> status (scan_line fi l) = ''added''"
  by (simp add: scan_line_def Let_def split: option.splits)

lemma foldl_scan_line_status_keeps:
  "\<forall>l\<in>set ls. \<not> startsWith l ''deleted file mode'' \<and> \<not> startsWith l ''rename from'' \<Longrightarrow>
   status fi = ''added'' \<Longrightarrow> status (foldl scan_line fi ls) = ''added''"
  by (induction ls arbitrary: fi) (simp_all add: scan_line_status_keeps)

lemma fileInfo_of_header:
  "status (fileInfo_of lines) =
     status (foldl scan_line init_fileInfo (takeWhile (\<lambda>l. \<not> startsWith l ''@@'') lines)) \<and>
   filename (fileInfo_of lines) =
     filename (foldl scan_line init_fileInfo (takeWhile (\<lambda>l. \<not> startsWith l ''@@'') lines))"
  by (simp add: fileInfo_of_eq Let_def)

lemma fileInfo_of_no_hunk:
  assumes "\<forall>l\<in>set lines. \<not> startsWith l ''@@''"
  shows "fileInfo_of lines = foldl scan_line init_fileInfo lines"
proof -
  have tw: "takeWhile (\<lambda>l. \<not> startsWith l ''@@'') lines = lines"
    and dw: "dropWhile (\<lambda>l. \<not> startsWith l ''@@'') lines = []"
    using assms by simp_all
  show ?thesis
    unfolding fileInfo_of_eq Let_def tw dw by simp
qed

lemma trim_Nil_iff: "trim s = [] \<longleftrightarrow> (\<forall>c\<in>set s. is_space c)"
proof
  assume "trim s = []"
  then have a: "\<forall>c\<in>set (dropWhile is_space s). is_space c"
    by (simp add: trim_def dropWhile_eq_Nil_conv)
  have "dropWhile is_space s = []"
  proof (rule ccontr)
    assume n: "dropWhile is_space s \<noteq> []"
    then have "\<not> is_space (hd (dropWhile is_space s))"
      by (rule hd_dropWhile)
    moreover have "hd (dropWhile is_space s) \<in> set (dropWhile is_space s)"
      using n by simp
    ultimately show False using a by blast
  qed
  then show "\<forall>c\<in>set s. is_space c"
    by (simp add: dropWhile_eq_Nil_conv)
next
  assume "\<forall>c\<in>set s. is_space c"
  then have d: "dropWhile is_space s = []" by simp
  show "trim s = []" unfolding trim_def d by simp
qed

lemma split_on_subset: "l \<in> set (split_on sep s) \<Longrightarrow> set l \<subseteq> set s"
proof (induction s arbitrary: l)
  case Nil
  then show ?case by simp
next
  case (Cons c cs)
  obtain x xs where r: "split_on sep cs = x # xs"
    by (cases "split_on sep cs") simp_all
  have "set x \<subseteq> set cs" and "\<And>y. y \<in> set xs \<Longrightarrow> set y \<subseteq> set cs"
    using Cons.IH r by simp_all
  with Cons.prems r show ?case
    by (auto simp: Let_def split: if_splits)
qed

lemma names_file_not_blank:
  assumes "l \<in> set (split_on LF s)" and "startsWith l '' a/''"
  shows "trim s \<noteq> []"
proof -
  have "CHR ''a'' \<in> set l"
    using assms(2) by (auto simp: startsWith_iff)
  then have "CHR ''a'' \<in> set s"
    using split_on_subset [OF assms(1)] by blast
  moreover have "\<not> is_space CHR ''a''"
    by (simp add: is_space_def)
  ultimately show ?thesis
    by (auto simp: trim_Nil_iff)
qed

lemma foldl_section_step:
  "foldl section_step files ss =
     files @ List.map_filter
       (\<lambda>s. if trim s = [] then None else parseFileInfo (split_on LF s)) ss"
proof (induction ss arbitrary: files)
  case Nil
  then show ?case by (simp add: List.map_filter_simps)
next
  case (Cons s ss)
  have "foldl section_step files (s # ss) = foldl section_step (section_step files s) ss"
    by simp
  also have "\<dots> = section_step files s @ List.map_filter
       (\<lambda>s. if trim s = [] then None else parseFileInfo (split_on LF s)) ss"
    by (rule Cons.IH)
  also have "\<dots> = files @ List.map_filter
       (\<lambda>s. if trim s = [] then None else parseFileInfo (split_on LF s)) (s # ss)"
    by (simp add: List.map_filter_simps section_step_def split: option.splits)
  finally show ?case .
qed

lemma length_map_filter:
  "length (List.map_filter f xs) + length (filter (\<lambda>x. f x = None) xs) = length xs"
  by (induction xs) (auto simp: List.map_filter_simps split: option.splits)

subsection \<open>Counts\<close>

lemma init_scan_zero:
  "additions (foldl scan_line init_fileInfo ls) = 0 \<and>
   deletions (foldl scan_line init_fileInfo ls) = 0 \<and>
   patch (foldl scan_line init_fileInfo ls) = []"
  using foldl_scan_line_counts [of init_fileInfo ls] by (simp add: init_fileInfo_def)

lemma fileInfo_of_counts:
  "additions (fileInfo_of ls) =
      length (filter (\<lambda>l. startsWith l ''+'' \<and> \<not> startsWith l ''+++'')
        (dropWhile (\<lambda>l. \<not> startsWith l ''@@'') ls)) \<and>
   deletions (fileInfo_of ls) =
      length (filter (\<lambda>l. startsWith l ''-'' \<and> \<not> startsWith l ''---'')
        (dropWhile (\<lambda>l. \<not> startsWith l ''@@'') ls))"
proof (cases "dropWhile (\<lambda>l. \<not> startsWith l ''@@'') ls = []")
  case True
  show ?thesis
    unfolding fileInfo_of_eq Let_def True by (simp add: init_scan_zero)
next
  case False
  then show ?thesis
    unfolding fileInfo_of_eq Let_def by auto
qed

lemma split_on_patch:
  "split_on LF (patch (fileInfo_of (split_on LF sec))) =
     (if dropWhile (\<lambda>l. \<not> startsWith l ''@@'') (split_on LF sec) = [] then [[]]
      else dropWhile (\<lambda>l. \<not> startsWith l ''@@'') (split_on LF sec))"
proof (cases "dropWhile (\<lambda>l. \<not> startsWith l ''@@'') (split_on LF sec) = []")
  case True
  show ?thesis
    unfolding fileInfo_of_eq Let_def True by (simp add: init_scan_zero)
next
  case False
  have "\<forall>l\<in>set (dropWhile (\<lambda>l. \<not> startsWith l ''@@'') (split_on LF sec)). LF \<notin> set l"
    using split_on_no_sep [of _ LF sec] set_dropWhileD by fast
  with False have "split_on LF (join [LF] (dropWhile (\<lambda>l. \<not> startsWith l ''@@'') (split_on LF sec))) =
      dropWhile (\<lambda>l. \<not> startsWith l ''@@'') (split_on LF sec)"
    by (rule split_on_join)
  with False show ?thesis
    unfolding fileInfo_of_eq Let_def by auto
qed


text \<open>
  Claim C5: the counting callback of \<^verbatim>\<open>parseFileInfo\<close> leaves both counters as they are on
  a line that begins with \<^verbatim>\<open>+++\<close> or with \<^verbatim>\<open>---\<close>. For every list of lines, \<^verbatim>\<open>additions\<close> is
  the number of patch lines (the lines from the first one starting with \<^verbatim>\<open>@@\<close>) that start
  with \<^verbatim>\<open>+\<close> but not with \<^verbatim>\<open>+++\<close>, and \<^verbatim>\<open>deletions\<close> the number of those that start with
  \<^verbatim>\<open>-\<close> but not with \<^verbatim>\<open>---\<close>; for the lines of a file section, the same counts are taken
  over the lines of the \<^verbatim>\<open>patch\<close> string of the record.
\<close>

theorem C5_marker_lines_not_counted:
  "count_step cnt (''+++'' @ r) = cnt \<and>
   count_step cnt (''---'' @ r) = cnt \<and>
   additions (fileInfo_of lines) =
     length (filter (\<lambda>l. startsWith l ''+'' \<and> \<not> startsWith l ''+++'')
               (dropWhile (\<lambda>l. \<not> startsWith l ''@@'') lines)) \<and>
   deletions (fileInfo_of lines) =
     length (filter (\<lambda>l. startsWith l ''-'' \<and> \<not> startsWith l ''---'')
               (dropWhile (\<lambda>l. \<not> startsWith l ''@@'') lines)) \<and>
   additions (fileInfo_of (split_on LF sec)) =
     length (filter (\<lambda>l. startsWith l ''+'' \<and> \<not> startsWith l ''+++'')
               (split_on LF (patch (fileInfo_of (split_on LF sec))))) \<and>
   deletions (fileInfo_of (split_on LF sec)) =
     length (filter (\<lambda>l. startsWith l ''-'' \<and> \<not> startsWith l ''---'')
               (split_on LF (patch (fileInfo_of (split_on LF sec)))))"
proof (intro conjI)
  show "count_step cnt (''+++'' @ r) = cnt"
    by (cases cnt) (simp add: count_step_def)
  show "count_step cnt (''---'' @ r) = cnt"
    by (cases cnt) (simp add: count_step_def)
  show "additions (fileInfo_of lines) =
     length (filter (\<lambda>l. startsWith l ''+'' \<and> \<not> startsWith l ''+++'')
               (dropWhile (\<lambda>l. \<not> startsWith l ''@@'') lines))"
    by (simp add: fileInfo_of_counts)
  show "deletions (fileInfo_of lines) =
     length (filter (\<lambda>l. startsWith l ''-'' \<and> \<not> startsWith l ''---'')
               (dropWhile (\<lambda>l. \<not> startsWith l ''@@'') lines))"
    by (simp add: fileInfo_of_counts)
  show "additions (fileInfo_of (split_on LF sec)) =
     length (filter (\<lambda>l. startsWith l ''+'' \<and> \<not> startsWith l ''+++'')
               (split_on LF (patch (fileInfo_of (split_on LF sec)))))"
  proof (cases "dropWhile (\<lambda>l. \<not> startsWith l ''@@'') (split_on LF sec) = []")
    case True
    show ?thesis
      unfolding split_on_patch by (simp add: fileInfo_of_counts True)
  next
    case False
    then show ?thesis
      unfolding split_on_patch by (auto simp: fileInfo_of_counts)
  qed
  show "deletions (fileInfo_of (split_on LF sec)) =
     length (filter (\<lambda>l. startsWith l ''-'' \<and> \<not> startsWith l ''---'')
               (split_on LF (patch (fileInfo_of (split_on LF sec)))))"
  proof (cases "dropWhile (\<lambda>l. \<not> startsWith l ''@@'') (split_on LF sec) = []")
    case True
    show ?thesis
      unfolding split_on_patch by (simp add: fileInfo_of_counts True)
  next
    case False
    then show ?thesis
      unfolding split_on_patch by (auto simp: fileInfo_of_counts)
  qed
qed

subsection \<open>Status\<close>

text \<open>
  Claim C6: let a line \<open>m\<close> that starts with \<^verbatim>\<open>new file mode\<close> stand before the first line
  that starts with \<^verbatim>\<open>@@\<close>, and let no line between \<open>m\<close> and that first hunk header (or the
  end of the section, when there is none) start with \<^verbatim>\<open>deleted file mode\<close> or
  \<^verbatim>\<open>rename from\<close>. Then the record that \<^verbatim>\<open>parseFileInfo\<close> builds has status \<^verbatim>\<open>added\<close>, and
  so has every record it returns. More generally the scan stops at the first line \<open>h\<close> that
  starts with \<^verbatim>\<open>@@\<close>: status and filename are those of the lines before \<open>h\<close> alone, whatever
  follows.
\<close>

theorem C6_status_scan_stops_at_first_hunk:
  "(startsWith m ''new file mode'' \<and>
    (\<forall>l\<in>set (pre @ m # mid). \<not> startsWith l ''@@'') \<and>
    (\<forall>l\<in>set mid. \<not> startsWith l ''deleted file mode'' \<and> \<not> startsWith l ''rename from'') \<and>
    (rest = [] \<or> startsWith (hd rest) ''@@'')
    \<longrightarrow> status (fileInfo_of (pre @ m # mid @ rest)) = ''added'' \<and>
        (\<forall>fi. parseFileInfo (pre @ m # mid @ rest) = Some fi \<longrightarrow> status fi = ''added'')) \<and>
   ((\<forall>l\<in>set hdr. \<not> startsWith l ''@@'') \<and> startsWith h ''@@''
    \<longrightarrow> status (fileInfo_of (hdr @ h # post)) = status (fileInfo_of hdr) \<and>
        filename (fileInfo_of (hdr @ h # post)) = filename (fileInfo_of hdr))"
proof (intro conjI impI)
  let ?N = "\<lambda>l. \<not> startsWith l ''@@''"
  assume a: "startsWith m ''new file mode'' \<and>
    (\<forall>l\<in>set (pre @ m # mid). \<not> startsWith l ''@@'') \<and>
    (\<forall>l\<in>set mid. \<not> startsWith l ''deleted file mode'' \<and> \<not> startsWith l ''rename from'') \<and>
    (rest = [] \<or> startsWith (hd rest) ''@@'')"
  have "takeWhile ?N ((pre @ m # mid) @ rest) = pre @ m # mid"
  proof (cases rest)
    case Nil
    with a show ?thesis by simp
  next
    case (Cons x xs)
    with a have "startsWith x ''@@''" by simp
    with a Cons show ?thesis
      by (simp add: takeWhile_append2)
  qed
  then have "status (fileInfo_of (pre @ m # mid @ rest)) =
      status (foldl scan_line (scan_line (foldl scan_line init_fileInfo pre) m) mid)"
    by (simp add: fileInfo_of_header)
  also have "\<dots> = ''added''"
    using a by (intro foldl_scan_line_status_keeps scan_line_status_added) simp_all
  finally show s: "status (fileInfo_of (pre @ m # mid @ rest)) = ''added''" .
  then show "\<forall>fi. parseFileInfo (pre @ m # mid @ rest) = Some fi \<longrightarrow> status fi = ''added''"
    by (auto simp: parseFileInfo_def Let_def split: if_splits)
next
  let ?N = "\<lambda>l. \<not> startsWith l ''@@''"
  assume b: "(\<forall>l\<in>set hdr. \<not> startsWith l ''@@'') \<and> startsWith h ''@@''"
  then have 1: "takeWhile ?N (hdr @ h # post) = hdr" and 2: "takeWhile ?N hdr = hdr"
    by (simp_all add: takeWhile_append2)
  show "status (fileInfo_of (hdr @ h # post)) = status (fileInfo_of hdr)"
    using fileInfo_of_header [of "hdr @ h # post"] fileInfo_of_header [of hdr]
    unfolding 1 2 by simp
  show "filename (fileInfo_of (hdr @ h # post)) = filename (fileInfo_of hdr)"
    using fileInfo_of_header [of "hdr @ h # post"] fileInfo_of_header [of hdr]
    unfolding 1 2 by simp
qed

text \<open>
  C6 at a section whose \<^verbatim>\<open>deleted file mode\<close> line comes after the hunk header, and at one
  whose markers after the header would change both status and filename.
\<close>

theorem C6_status_scan_stops_at_first_hunk_witness:
  "status (fileInfo_of (['' a/x b/x''] @ ''new file mode 100644'' # [''index 0..1'']
      @ [''@@ -0,0 +1 @@'', ''+hello'', ''deleted file mode 100644''])) = ''added'' \<and>
   parseFileInfo (['' a/x b/x''] @ ''new file mode 100644'' # [''index 0..1'']
      @ [''@@ -0,0 +1 @@'', ''+hello'', ''deleted file mode 100644'']) =
     Some \<lparr>filename = ''x'', status = ''added'', additions = 1, deletions = 0,
           patch = join [LF] [''@@ -0,0 +1 @@'', ''+hello'', ''deleted file mode 100644'']\<rparr> \<and>
   status (fileInfo_of (['' a/x b/x'', ''rename from x''] @ ''@@ -0,0 +1 @@'' #
      [''deleted file mode 100644'', '' a/y b/y''])) = ''renamed'' \<and>
   filename (fileInfo_of (['' a/x b/x'', ''rename from x''] @ ''@@ -0,0 +1 @@'' #
      [''deleted file mode 100644'', '' a/y b/y''])) = ''x''"
proof -
  have 1: "status (fileInfo_of ['' a/x b/x'', ''rename from x'']) = ''renamed''"
    by code_simp
  have 2: "filename (fileInfo_of ['' a/x b/x'', ''rename from x'']) = ''x''"
    by code_simp
  have 3: "parseFileInfo (['' a/x b/x''] @ ''new file mode 100644'' # [''index 0..1'']
      @ [''@@ -0,0 +1 @@'', ''+hello'', ''deleted file mode 100644'']) =
     Some \<lparr>filename = ''x'', status = ''added'', additions = 1, deletions = 0,
           patch = join [LF] [''@@ -0,0 +1 @@'', ''+hello'', ''deleted file mode 100644'']\<rparr>"
    by code_simp
  show ?thesis
    using C6_status_scan_stops_at_first_hunk
      [of "''new file mode 100644''" "['' a/x b/x'']" "[''index 0..1'']"
          "[''@@ -0,0 +1 @@'', ''+hello'', ''deleted file mode 100644'']"
          "['' a/x b/x'', ''rename from x'']" "''@@ -0,0 +1 @@''"
          "[''deleted file mode 100644'', '' a/y b/y'']"]
      1 2 3
    by simp
qed

subsection \<open>Dropped sections\<close>

lemma parseFileInfo_eq:
  "parseFileInfo lines =
     (if filename (fileInfo_of lines) \<noteq> [] then Some (fileInfo_of lines) else None)"
  by (simp add: parseFileInfo_def Let_def)

lemma parseGitDiff_eq:
  "parseGitDiff diff =
     List.map_filter (\<lambda>s. if trim s = [] then None else parseFileInfo (split_on LF s))
       (split_diff True [] diff)"
  by (simp add: parseGitDiff_def foldl_section_step)

lemma map_filter_all_Some:
  "\<forall>x\<in>set xs. f x = Some (g x) \<Longrightarrow> List.map_filter f xs = map g xs"
  by (induction xs) (simp_all add: List.map_filter_simps)

lemma map_filter_app:
  "List.map_filter f (xs @ ys) = List.map_filter f xs @ List.map_filter f ys"
  by (simp add: List.map_filter_def)

lemma set_map_filter: "set (List.map_filter f xs) = {y. \<exists>x\<in>set xs. f x = Some y}"
  by (induction xs) (auto simp: List.map_filter_simps split: option.splits)

lemma filename_not_blank:
  assumes "filename (fileInfo_of (split_on LF s)) \<noteq> []"
  shows "trim s \<noteq> []"
proof -
  let ?N = "\<lambda>l. \<not> startsWith l ''@@''"
  have "filename (foldl scan_line init_fileInfo (takeWhile ?N (split_on LF s))) \<noteq> []"
    using assms by (simp add: fileInfo_of_header)
  then obtain l where "l \<in> set (takeWhile ?N (split_on LF s))" and "startsWith l '' a/''"
    unfolding foldl_scan_line_filename_iff by (auto simp: init_fileInfo_def)
  then show ?thesis
    using names_file_not_blank [of l s] set_takeWhileD by fast
qed

text \<open>
  Claim C7: a section that is white space only, and a section for which the scan finds no
  filename, leave the \<^verbatim>\<open>files\<close> array as it is. The result of \<^verbatim>\<open>parseGitDiff\<close> is the list
  of the records of the other sections, in order: every section is visited, none stops
  the loop, and the number of entries plus the number of dropped sections is the number
  \<open>N\<close> of sections. In particular, when one section is white space only and every other
  section yields a filename, there are exactly \<open>N - 1\<close> entries, the records of the other
  sections.
\<close>

theorem C7_dropped_sections:
  "(trim s = [] \<or> filename (fileInfo_of (split_on LF s)) = []
      \<longrightarrow> section_step files s = files) \<and>
   parseGitDiff diff =
     List.map_filter (\<lambda>s. if trim s = [] then None else parseFileInfo (split_on LF s))
       (split_diff True [] diff) \<and>
   length (parseGitDiff diff) +
     length (filter (\<lambda>s. trim s = [] \<or> filename (fileInfo_of (split_on LF s)) = [])
               (split_diff True [] diff)) = length (split_diff True [] diff) \<and>
   (split_diff True [] diff = pre @ w # post \<and> trim w = [] \<and>
    (\<forall>s\<in>set (pre @ post). trim s \<noteq> [] \<and> filename (fileInfo_of (split_on LF s)) \<noteq> [])
      \<longrightarrow> length (parseGitDiff diff) = length (split_diff True [] diff) - 1 \<and>
          parseGitDiff diff = map (\<lambda>s. fileInfo_of (split_on LF s)) (pre @ post))"
proof (intro conjI impI)
  let ?f = "\<lambda>s. if trim s = [] then None else parseFileInfo (split_on LF s)"
  let ?g = "\<lambda>s. fileInfo_of (split_on LF s)"
  show "section_step files s = files"
    if "trim s = [] \<or> filename (fileInfo_of (split_on LF s)) = []"
    using that by (auto simp: section_step_def parseFileInfo_eq)
  show "parseGitDiff diff = List.map_filter ?f (split_diff True [] diff)"
    by (rule parseGitDiff_eq)
  have "(\<lambda>s. ?f s = None) = (\<lambda>s. trim s = [] \<or> filename (fileInfo_of (split_on LF s)) = [])"
    by (auto simp: parseFileInfo_eq)
  then show "length (parseGitDiff diff) +
     length (filter (\<lambda>s. trim s = [] \<or> filename (fileInfo_of (split_on LF s)) = [])
               (split_diff True [] diff)) = length (split_diff True [] diff)"
    using length_map_filter [of ?f "split_diff True [] diff"] by (simp add: parseGitDiff_eq)
  assume a: "split_diff True [] diff = pre @ w # post \<and> trim w = [] \<and>
    (\<forall>s\<in>set (pre @ post). trim s \<noteq> [] \<and> filename (fileInfo_of (split_on LF s)) \<noteq> [])"
  have k: "\<forall>x\<in>set xs. ?f x = Some (?g x)" if "set xs \<subseteq> set (pre @ post)" for xs
    using a that by (auto simp: parseFileInfo_eq)
  have "List.map_filter ?f pre = map ?g pre" and "List.map_filter ?f post = map ?g post"
    by (rule map_filter_all_Some, rule k, simp)+
  moreover have "List.map_filter ?f [w] = []"
    using a by (simp add: List.map_filter_simps)
  ultimately have "List.map_filter ?f (pre @ [w] @ post) = map ?g (pre @ post)"
    unfolding map_filter_app by simp
  then show r: "parseGitDiff diff = map ?g (pre @ post)"
    using a by (simp add: parseGitDiff_eq)
  show "length (parseGitDiff diff) = length (split_diff True [] diff) - 1"
    unfolding r using a by simp
qed

text \<open>
  C7 at a diff of two files (three sections, the first one empty), and the two ways of
  dropping a section.
\<close>

theorem C7_dropped_sections_witness:
  "section_step [] (join [LF] ['' '', '' '']) = [] \<and>
   section_step [] (join [LF] ['' foo'', ''@@ -1 +1 @@'']) = [] \<and>
   length (split_diff True []
     (join [LF] [''diff --git a/x.js b/x.js'', ''@@ -1 +1 @@'', ''+a'',
                 ''diff --git a/y.js b/y.js'', ''new file mode 100644''])) = 3 \<and>
   length (parseGitDiff
     (join [LF] [''diff --git a/x.js b/x.js'', ''@@ -1 +1 @@'', ''+a'',
                 ''diff --git a/y.js b/y.js'', ''new file mode 100644''])) = 2 \<and>
   parseGitDiff
     (join [LF] [''diff --git a/x.js b/x.js'', ''@@ -1 +1 @@'', ''+a'',
                 ''diff --git a/y.js b/y.js'', ''new file mode 100644'']) =
     [\<lparr>filename = ''x.js'', status = ''modified'', additions = 1, deletions = 0,
       patch = join [LF] [''@@ -1 +1 @@'', ''+a'', []]\<rparr>,
      \<lparr>filename = ''y.js'', status = ''added'', additions = 0, deletions = 0, patch = []\<rparr>]"
proof -
  let ?d = "join [LF] [''diff --git a/x.js b/x.js'', ''@@ -1 +1 @@'', ''+a'',
                 ''diff --git a/y.js b/y.js'', ''new file mode 100644'']"
  let ?s1 = "join [LF] ['' a/x.js b/x.js'', ''@@ -1 +1 @@'', ''+a'', []]"
  let ?s2 = "join [LF] ['' a/y.js b/y.js'', ''new file mode 100644'']"
  have f1: "fileInfo_of (split_on LF ?s1) =
      \<lparr>filename = ''x.js'', status = ''modified'', additions = 1, deletions = 0,
       patch = join [LF] [''@@ -1 +1 @@'', ''+a'', []]\<rparr>"
    by code_simp
  have f2: "fileInfo_of (split_on LF ?s2) =
      \<lparr>filename = ''y.js'', status = ''added'', additions = 0, deletions = 0, patch = []\<rparr>"
    by code_simp
  have 1: "section_step [] (join [LF] ['' '', '' '']) = []"
    by (rule C7_dropped_sections
          [of "join [LF] ['' '', '' '']" "[]" ?d "[]" "[]" "[?s1, ?s2]",
            THEN conjunct1, THEN mp])
       code_simp
  have 2: "section_step [] (join [LF] ['' foo'', ''@@ -1 +1 @@'']) = []"
    by (rule C7_dropped_sections
          [of "join [LF] ['' foo'', ''@@ -1 +1 @@'']" "[]" ?d "[]" "[]" "[?s1, ?s2]",
            THEN conjunct1, THEN mp])
       code_simp
  have 3: "length (parseGitDiff ?d) = length (split_diff True [] ?d) - 1 \<and>
      parseGitDiff ?d = map (\<lambda>s. fileInfo_of (split_on LF s)) ([] @ [?s1, ?s2])"
    by (rule C7_dropped_sections [of "[]" "[]" ?d "[]" "[]" "[?s1, ?s2]",
            THEN conjunct2, THEN conjunct2, THEN conjunct2, THEN mp])
       code_simp
  have 4: "length (split_diff True [] ?d) = 3"
    by code_simp
  have 5: "length (parseGitDiff ?d) = 2"
    using 3 [THEN conjunct1] unfolding 4 by simp
  have 6: "parseGitDiff ?d =
     [\<lparr>filename = ''x.js'', status = ''modified'', additions = 1, deletions = 0,
       patch = join [LF] [''@@ -1 +1 @@'', ''+a'', []]\<rparr>,
      \<lparr>filename = ''y.js'', status = ''added'', additions = 0, deletions = 0, patch = []\<rparr>]"
    using 3 [THEN conjunct2] unfolding append_Nil list.map f1 f2 .
  show ?thesis
    by (intro conjI 1 2 4 5 6)
qed

subsection \<open>Sections without hunks\<close>

text \<open>
  Claim C8: when no line of a section starts with \<^verbatim>\<open>@@\<close>, the record that
  \<^verbatim>\<open>parseFileInfo\<close> builds has the empty patch and zero additions and deletions; its
  filename is non-empty exactly when some line starts with \<^verbatim>\<open> a/\<close>, includes \<^verbatim>\<open> b/\<close> and
  matches the filename pattern, and then \<^verbatim>\<open>parseFileInfo\<close> returns that record. If the
  section is one of the sections of a diff, the record is in the list that
  \<^verbatim>\<open>parseGitDiff\<close> returns.
\<close>

theorem C8_section_without_hunk:
  "((\<forall>x\<in>set lines. \<not> startsWith x ''@@'') \<longrightarrow>
      (filename (fileInfo_of lines) \<noteq> [] \<longleftrightarrow>
         (\<exists>l\<in>set lines. startsWith l '' a/'' \<and> includes_str l '' b/'' \<and>
                          match_filename l \<noteq> None)) \<and>
      patch (fileInfo_of lines) = [] \<and>
      additions (fileInfo_of lines) = 0 \<and>
      deletions (fileInfo_of lines) = 0 \<and>
      (filename (fileInfo_of lines) \<noteq> [] \<longrightarrow> parseFileInfo lines = Some (fileInfo_of lines))) \<and>
   (s \<in> set (split_diff True [] diff) \<and>
    (\<forall>x\<in>set (split_on LF s). \<not> startsWith x ''@@'') \<and>
    filename (fileInfo_of (split_on LF s)) \<noteq> []
      \<longrightarrow> parseFileInfo (split_on LF s) = Some (fileInfo_of (split_on LF s)) \<and>
          fileInfo_of (split_on LF s) \<in> set (parseGitDiff diff) \<and>
          patch (fileInfo_of (split_on LF s)) = [] \<and>
          additions (fileInfo_of (split_on LF s)) = 0 \<and>
          deletions (fileInfo_of (split_on LF s)) = 0)"
proof (intro conjI impI)
  assume n: "\<forall>x\<in>set lines. \<not> startsWith x ''@@''"
  then have e: "fileInfo_of lines = foldl scan_line init_fileInfo lines"
    by (rule fileInfo_of_no_hunk)
  show "filename (fileInfo_of lines) \<noteq> [] \<longleftrightarrow>
         (\<exists>l\<in>set lines. startsWith l '' a/'' \<and> includes_str l '' b/'' \<and>
                          match_filename l \<noteq> None)"
    unfolding e foldl_scan_line_filename_iff by (simp add: init_fileInfo_def)
  show "patch (fileInfo_of lines) = []"
    and "additions (fileInfo_of lines) = 0"
    and "deletions (fileInfo_of lines) = 0"
    unfolding e using foldl_scan_line_counts [of init_fileInfo lines]
    by (simp_all add: init_fileInfo_def)
  show "parseFileInfo lines = Some (fileInfo_of lines)"
    if "filename (fileInfo_of lines) \<noteq> []"
    using that by (simp add: parseFileInfo_eq)
next
  assume a: "s \<in> set (split_diff True [] diff) \<and>
    (\<forall>x\<in>set (split_on LF s). \<not> startsWith x ''@@'') \<and>
    filename (fileInfo_of (split_on LF s)) \<noteq> []"
  then have e: "fileInfo_of (split_on LF s) = foldl scan_line init_fileInfo (split_on LF s)"
    by (intro fileInfo_of_no_hunk) simp
  show p: "parseFileInfo (split_on LF s) = Some (fileInfo_of (split_on LF s))"
    using a by (simp add: parseFileInfo_eq)
  have "trim s \<noteq> []"
    using a by (intro filename_not_blank) simp
  with a p show "fileInfo_of (split_on LF s) \<in> set (parseGitDiff diff)"
    unfolding parseGitDiff_eq set_map_filter by auto
  show "patch (fileInfo_of (split_on LF s)) = []"
    and "additions (fileInfo_of (split_on LF s)) = 0"
    and "deletions (fileInfo_of (split_on LF s)) = 0"
    unfolding e using foldl_scan_line_counts [of init_fileInfo "split_on LF s"]
    by (simp_all add: init_fileInfo_def)
qed

text \<open>C8 at a section with a mode change only, second file of a diff.\<close>

theorem C8_section_without_hunk_witness:
  "filename (fileInfo_of ['' a/y.js b/y.js'', ''old mode 100644'', ''new mode 100755''])
     = ''y.js'' \<and>
   parseFileInfo ['' a/y.js b/y.js'', ''old mode 100644'', ''new mode 100755''] =
     Some (fileInfo_of ['' a/y.js b/y.js'', ''old mode 100644'', ''new mode 100755'']) \<and>
   patch (fileInfo_of ['' a/y.js b/y.js'', ''old mode 100644'', ''new mode 100755'']) = [] \<and>
   additions (fileInfo_of ['' a/y.js b/y.js'', ''old mode 100644'', ''new mode 100755'']) = 0 \<and>
   deletions (fileInfo_of ['' a/y.js b/y.js'', ''old mode 100644'', ''new mode 100755'']) = 0 \<and>
   fileInfo_of (split_on LF (join [LF] ['' a/y.js b/y.js'', ''old mode 100644'',
       ''new mode 100755''])) \<in>
     set (parseGitDiff (join [LF] [''diff --git a/x.js b/x.js'', ''@@ -1 +1 @@'', ''+a'',
       ''diff --git a/y.js b/y.js'', ''old mode 100644'', ''new mode 100755'']))"
proof -
  let ?ls = "['' a/y.js b/y.js'', ''old mode 100644'', ''new mode 100755'']"
  let ?s = "join [LF] ['' a/y.js b/y.js'', ''old mode 100644'', ''new mode 100755'']"
  let ?d = "join [LF] [''diff --git a/x.js b/x.js'', ''@@ -1 +1 @@'', ''+a'',
       ''diff --git a/y.js b/y.js'', ''old mode 100644'', ''new mode 100755'']"
  have n: "\<forall>x\<in>set ?ls. \<not> startsWith x ''@@''"
    by simp
  have f: "filename (fileInfo_of ?ls) = ''y.js''"
    by code_simp
  then have f': "filename (fileInfo_of ?ls) \<noteq> []"
    by simp
  note A = C8_section_without_hunk [of ?ls ?s ?d, THEN conjunct1, THEN mp, OF n]
  have h: "?s \<in> set (split_diff True [] ?d) \<and>
    (\<forall>x\<in>set (split_on LF ?s). \<not> startsWith x ''@@'') \<and>
    filename (fileInfo_of (split_on LF ?s)) \<noteq> []"
    by code_simp
  note B = C8_section_without_hunk [of ?ls ?s ?d, THEN conjunct2, THEN mp, OF h]
  show ?thesis
    by (intro conjI f
          A [THEN conjunct2, THEN conjunct2, THEN conjunct2, THEN conjunct2, THEN mp, OF f']
          A [THEN conjunct2, THEN conjunct1]
          A [THEN conjunct2, THEN conjunct2, THEN conjunct1]
          A [THEN conjunct2, THEN conjunct2, THEN conjunct2, THEN conjunct1]
          B [THEN conjunct2, THEN conjunct1])
qed

section \<open>The Review Orchestrator\<close>

subsection \<open>What the issue finder rejects with\<close>

lemma TypeError_not_nullish [simp]: "TypeError \<noteq> Nullish"
  by (simp add: TypeError_def)

lemma new_Error_not_nullish [simp]: "new_Error msg \<noteq> Nullish"
  by (simp add: new_Error_def)

lemma nullish_not_TypeError [simp]: "Nullish \<noteq> TypeError"
  by (simp add: TypeError_def)

lemma message_includes_value: "message_includes msg p = Inl e \<Longrightarrow> e = TypeError"
  by (cases msg) (simp_all add: message_includes_def)

lemma model_missing_value: "model_missing st msg = Inl e \<Longrightarrow> e = TypeError"
  by (auto simp: model_missing_def split: if_splits sum.splits bool.splits
        dest: message_includes_value)

lemma request_rejects_value:
  "\<forall>e b'. makeOpenAIRequest create thisModel diff ctx modelToTry b = (Inl e, b')
      \<longrightarrow> e \<noteq> Nullish"
  "\<forall>e b'. try_fallbacks create thisModel diff ctx model i b = (Inl e, b')
      \<longrightarrow> e \<noteq> Nullish"
proof (induction create thisModel diff ctx modelToTry b
         and create thisModel diff ctx model i b
       rule: makeOpenAIRequest_try_fallbacks.induct)
  case (1 create thisModel diff ctx modelToTry b)
  show ?case
  proof (intro allI impI)
    fix e b'
    assume r: "makeOpenAIRequest create thisModel diff ctx modelToTry b = (Inl e, b')"
    let ?model = "effective_model modelToTry thisModel"
    let ?b1 = "note_event (AttemptingModel ?model) b"
    obtain res w where c: "create (remote ?b1) ?model diff ctx = (res, w)"
      by (cases "create (remote ?b1) ?model diff ctx")
    show "e \<noteq> Nullish"
    proof (cases res)
      case (Inr response)
      with r c show ?thesis
        by (simp add: makeOpenAIRequest.simps Let_def)
    next
      case (Inl error)
      show ?thesis
      proof (cases error)
        case Nullish
        with r c Inl show ?thesis
          by (auto simp: makeOpenAIRequest.simps Let_def)
      next
        case (ErrorObject st msg)
        show ?thesis
        proof (cases "model_missing st msg")
          case (Inl t)
          with r c \<open>res = Inl error\<close> ErrorObject show ?thesis
            by (auto simp: makeOpenAIRequest.simps Let_def dest: model_missing_value)
        next
          case (Inr m)
          show ?thesis
          proof (cases m)
            case True
            have "try_fallbacks create thisModel diff ctx ?model 0
                (note_event (ModelNotAvailable ?model) (?b1\<lparr>remote := w\<rparr>)) = (Inl e, b')"
              using r c \<open>res = Inl error\<close> ErrorObject Inr True
              by (simp add: makeOpenAIRequest.simps Let_def)
            moreover have "\<forall>e b'. try_fallbacks create thisModel diff ctx ?model 0
                (note_event (ModelNotAvailable ?model) (?b1\<lparr>remote := w\<rparr>)) = (Inl e, b')
                \<longrightarrow> e \<noteq> Nullish"
              using c \<open>res = Inl error\<close> ErrorObject Inr True
              by (intro "1.IH" [of ?model ?b1 res w error st msg m]) simp_all
            ultimately show ?thesis by blast
          next
            case False
            with r c \<open>res = Inl error\<close> ErrorObject Inr show ?thesis
              by (auto simp: makeOpenAIRequest.simps Let_def)
          qed
        qed
      qed
    qed
  qed
next
  case (2 create thisModel diff ctx model i b)
  show ?case
  proof (intro allI impI)
    fix e b'
    assume r: "try_fallbacks create thisModel diff ctx model i b = (Inl e, b')"
    show "e \<noteq> Nullish"
    proof (cases "i < length fallbackModels")
      case False
      with r show ?thesis
        by (auto simp: try_fallbacks.simps)
    next
      case True
      let ?fb = "fallbackModels ! i"
      show ?thesis
      proof (cases "Some ?fb \<noteq> model")
        case False
        with True r have "try_fallbacks create thisModel diff ctx model (i + 1) b = (Inl e, b')"
          by (simp add: try_fallbacks.simps Let_def)
        moreover have "\<forall>e b'. try_fallbacks create thisModel diff ctx model (i + 1) b = (Inl e, b')
            \<longrightarrow> e \<noteq> Nullish"
          using True False by (intro "2.IH"(3) [of ?fb]) simp_all
        ultimately show ?thesis by blast
      next
        case ne: True
        obtain res y where m: "makeOpenAIRequest create thisModel diff ctx (Some ?fb)
            (note_event (TryingFallback ?fb) b) = (res, y)"
          by (cases "makeOpenAIRequest create thisModel diff ctx (Some ?fb)
            (note_event (TryingFallback ?fb) b)")
        show ?thesis
        proof (cases res)
          case (Inr response)
          with r True ne m show ?thesis
            by (simp add: try_fallbacks.simps Let_def)
        next
          case (Inl fallbackError)
          show ?thesis
          proof (cases fallbackError)
            case Nullish
            with r True ne m Inl show ?thesis
              by (auto simp: try_fallbacks.simps Let_def)
          next
            case (ErrorObject st msg)
            have "try_fallbacks create thisModel diff ctx model (i + 1)
                (note_event (FallbackFailed ?fb msg) y) = (Inl e, b')"
              using r True ne m Inl ErrorObject by (simp add: try_fallbacks.simps Let_def)
            moreover have "\<forall>e b'. try_fallbacks create thisModel diff ctx model (i + 1)
                (note_event (FallbackFailed ?fb msg) y) = (Inl e, b') \<longrightarrow> e \<noteq> Nullish"
              using True ne m Inl ErrorObject
              by (intro "2.IH"(2) [of ?fb res y fallbackError st msg]) simp_all
            ultimately show ?thesis by blast
          qed
        qed
      qed
    qed
  qed
qed

lemma parseAnalysis_value: "parseAnalysis jsonParse analysis b = (Inl e, b') \<Longrightarrow> e \<noteq> Nullish"
  by (auto simp: parseAnalysis_def split: content.splits option.splits)

lemma analyzeCode_rejects_value:
  "analyzeCode create jsonParse thisModel b diff ctx = (Inl e, b') \<Longrightarrow> e \<noteq> Nullish"
  using request_rejects_value(1) [of create thisModel diff ctx None b]
  by (auto simp: analyzeCode_def split: prod.splits sum.splits response.splits
        dest: parseAnalysis_value)

subsection \<open>The per-file loop\<close>

lemma announced_append: "announced (a @ b) = announced a @ announced b"
  by (simp add: announced_def map_filter_app)

lemma outcomes_append: "outcomes (a @ b) = outcomes a @ outcomes b"
  by (simp add: outcomes_def map_filter_app)

lemma reviewFile_console:
  "reviewFile finder formatComment maxDiffSize f prDetails env = (r, env') \<Longrightarrow>
   console env' = console env \<or> console env' = console env @ [Skipping (filename f)]"
  by (auto simp: reviewFile_def Let_def emit_def split: if_splits prod.splits sum.splits)

lemma reviewFile_rejection:
  "reviewFile finder formatComment maxDiffSize f prDetails env = (Inl e, env') \<Longrightarrow>
   \<exists>w d c w'. finder w d c = (Inl e, w')"
  by (auto simp: reviewFile_def Let_def split: if_splits prod.splits sum.splits)

lemma review_step_completes:
  assumes nn: "\<forall>w d c e w'. finder w d c = (Inl e, w') \<longrightarrow> e \<noteq> Nullish"
  shows "\<exists>rs' env' es more.
           review_step finder formatComment maxDiffSize prDetails (rs, env) f
             = Inr (rs', env') \<and>
           console env' = console env @ es \<and>
           announced es = [filename f] \<and> outcomes es = [filename f] \<and>
           rs' = rs @ more"
proof -
  obtain r env1 where
    rf: "reviewFile finder formatComment maxDiffSize f prDetails
           (emit (Reviewing (filename f)) env) = (r, env1)"
    by (cases "reviewFile finder formatComment maxDiffSize f prDetails
           (emit (Reviewing (filename f)) env)")
  from reviewFile_console [OF rf]
  obtain sk where c: "console env1 = console env @ Reviewing (filename f) # sk"
    and sk: "sk = [] \<or> sk = [Skipping (filename f)]"
    by (auto simp: emit_def)
  have ask: "announced (Reviewing (filename f) # sk) = [filename f]"
    and osk: "outcomes (Reviewing (filename f) # sk) = []"
    using sk by (auto simp: announced_def outcomes_def List.map_filter_simps)
  show ?thesis
  proof (cases r)
    case (Inl e)
    with rf have "\<exists>w d c w'. finder w d c = (Inl e, w')"
      by (auto dest: reviewFile_rejection)
    then have "e \<noteq> Nullish"
      using nn by blast
    then obtain st msg where e: "e = ErrorObject st msg"
      by (cases e) simp_all
    let ?tl = "[FailedToReview (filename f) msg, LoggedError (filename f) e]"
    have "review_step finder formatComment maxDiffSize prDetails (rs, env) f
        = Inr (rs, env1\<lparr>console := console env1 @ ?tl\<rparr>)"
      using rf Inl e by (simp add: review_step_def emit_def)
    moreover have "announced ((Reviewing (filename f) # sk) @ ?tl) = [filename f]"
      unfolding announced_append ask by (simp add: announced_def List.map_filter_simps)
    moreover have "outcomes ((Reviewing (filename f) # sk) @ ?tl) = [filename f]"
      unfolding outcomes_append osk by (simp add: outcomes_def List.map_filter_simps)
    ultimately show ?thesis
      using c by (intro exI [of _ rs] exI [of _ "env1\<lparr>console := console env1 @ ?tl\<rparr>"]
          exI [of _ "(Reviewing (filename f) # sk) @ ?tl"] exI [of _ "[]"]) simp
  next
    case (Inr ro)
    let ?good = "case ro of None \<Rightarrow> False | Some rv \<Rightarrow> 0 < length (review_comments rv)"
    let ?tl = "if ?good then [Reviewed (filename f) (length (review_comments (the ro)))]
               else [NoIssuesFound (filename f)]"
    let ?more = "if ?good then [the ro] else []"
    have "review_step finder formatComment maxDiffSize prDetails (rs, env) f
        = Inr (rs @ ?more, env1\<lparr>console := console env1 @ ?tl\<rparr>)"
      using rf Inr by (simp add: review_step_def emit_def split: option.splits)
    moreover have "announced ((Reviewing (filename f) # sk) @ ?tl) = [filename f]"
      unfolding announced_append ask by (simp add: announced_def List.map_filter_simps)
    moreover have "outcomes ((Reviewing (filename f) # sk) @ ?tl) = [filename f]"
      unfolding outcomes_append osk by (simp add: outcomes_def List.map_filter_simps)
    ultimately show ?thesis
      using c by (intro exI [of _ "rs @ ?more"]
          exI [of _ "env1\<lparr>console := console env1 @ ?tl\<rparr>"]
          exI [of _ "(Reviewing (filename f) # sk) @ ?tl"] exI [of _ ?more]) simp
  qed
qed

lemma review_files_completes:
  assumes nn: "\<forall>w d c e w'. finder w d c = (Inl e, w') \<longrightarrow> e \<noteq> Nullish"
  shows "\<exists>rs' env' es more.
           review_files finder formatComment maxDiffSize prDetails st files = Inr (rs', env') \<and>
           console env' = console (snd st) @ es \<and>
           announced es = map filename files \<and> outcomes es = map filename files \<and>
           rs' = fst st @ more"
proof (induction files arbitrary: st)
  case Nil
  show ?case
    by (cases st) (simp add: announced_def outcomes_def List.map_filter_simps)
next
  case (Cons f fs)
  obtain rs env where st: "st = (rs, env)" by (cases st)
  obtain rs1 env1 es1 m1 where
    1: "review_step finder formatComment maxDiffSize prDetails (rs, env) f = Inr (rs1, env1)"
    and c1: "console env1 = console env @ es1"
    and a1: "announced es1 = [filename f]" and o1: "outcomes es1 = [filename f]"
    and r1: "rs1 = rs @ m1"
    using review_step_completes
      [OF nn, where formatComment = formatComment and maxDiffSize = maxDiffSize
        and prDetails = prDetails and rs = rs and env = env and f = f]
    by blast
  obtain rs2 env2 es2 m2 where
    2: "review_files finder formatComment maxDiffSize prDetails (rs1, env1) fs = Inr (rs2, env2)"
    and c2: "console env2 = console env1 @ es2"
    and a2: "announced es2 = map filename fs" and o2: "outcomes es2 = map filename fs"
    and r2: "rs2 = rs1 @ m2"
    using Cons.IH [of "(rs1, env1)"] by auto
  have "review_files finder formatComment maxDiffSize prDetails st (f # fs) = Inr (rs2, env2)"
    using st 1 2 by simp
  moreover have "console env2 = console (snd st) @ (es1 @ es2)"
    using st c1 c2 by simp
  moreover have "announced (es1 @ es2) = map filename (f # fs)"
    by (simp add: announced_append a1 a2)
  moreover have "outcomes (es1 @ es2) = map filename (f # fs)"
    by (simp add: outcomes_append o1 o2)
  moreover have "rs2 = fst st @ (m1 @ m2)"
    using st r1 r2 by simp
  ultimately show ?case by blast
qed

lemma review_files_append:
  "review_files finder formatComment maxDiffSize prDetails st (xs @ ys) =
     (case review_files finder formatComment maxDiffSize prDetails st xs of
        Inl a \<Rightarrow> Inl a
      | Inr st' \<Rightarrow> review_files finder formatComment maxDiffSize prDetails st' ys)"
  by (induction xs arbitrary: st) (simp_all split: sum.splits)

text \<open>
  The failing step, and what the loop would do with an issue finder that rejects with a
  nullish value: the \<^verbatim>\<open>catch\<close> block throws, and the files after it are not reviewed.
\<close>

lemma review_step_failure:
  assumes "isRelevantFile (detectLanguage (getFileExtension (filename f)))
             (getFileExtension (filename f))"
    and "patch f \<noteq> []" and "int (length (patch f)) \<le> maxDiffSize"
    and "finder (world env) (patch f)
           (context_of (detectLanguage (getFileExtension (filename f))) f prDetails)
         = (Inl (ErrorObject st msg), w)"
  shows "review_step finder formatComment maxDiffSize prDetails (rs, env) f =
           Inr (rs, \<lparr>world = w,
                     console = console env @
                       [Reviewing (filename f),
                        FailedToReview (filename f) msg,
                        LoggedError (filename f) (ErrorObject st msg)]\<rparr>)"
  using assms by (simp add: review_step_def reviewFile_def Let_def emit_def)

lemma review_step_nullish_aborts:
  assumes "isRelevantFile (detectLanguage (getFileExtension (filename f)))
             (getFileExtension (filename f))"
    and "patch f \<noteq> []" and "int (length (patch f)) \<le> maxDiffSize"
    and "finder (world env) (patch f)
           (context_of (detectLanguage (getFileExtension (filename f))) f prDetails)
         = (Inl Nullish, w)"
  shows "review_files finder formatComment maxDiffSize prDetails (rs, env) (f # files) =
           Inl (TypeError, \<lparr>world = w, console = console env @ [Reviewing (filename f)]\<rparr>)"
  using assms by (simp add: review_step_def reviewFile_def Let_def emit_def)

text \<open>
  Claim C9, for the issue finder of the service, \<open>analyzeCode\<close> over any client, any
  \<^verbatim>\<open>JSON.parse\<close> and any configured model. The loop never stops early: it returns with
  \<open>Inr\<close>, and its console announces every file of the loop and reports one outcome for
  every file, in order. A rejection of the issue finder is never nullish, so the
  \<^verbatim>\<open>catch\<close> block can read its message. When the issue finder rejects with \<open>err\<close> for one
  file of the loop (a relevant file whose patch is non-empty and within the size cap),
  the \<^verbatim>\<open>catch\<close> block records the failure for that file (the spinner's failure line with
  the error's message, and the logged error), the reviews collected before stay, and the
  loop goes on with the files after it from that state.
\<close>

theorem C9_failure_does_not_abort_loop:
  "(\<exists>reviews' env'.
      review_loop (analyzeCode create jsonParse thisModel) formatComment maxDiffSize
          maxFilesPerReview prDetails filteredFiles env = Inr (reviews', env') \<and>
      announced (console env') =
        announced (console env) @ map filename (slice0 filteredFiles maxFilesPerReview) \<and>
      outcomes (console env') =
        outcomes (console env) @ map filename (slice0 filteredFiles maxFilesPerReview)) \<and>
   (analyzeCode create jsonParse thisModel b diff ctx = (Inl e, b') \<longrightarrow> e \<noteq> Nullish) \<and>
   (slice0 filteredFiles maxFilesPerReview = pre @ failing # post \<and>
    review_files (analyzeCode create jsonParse thisModel) formatComment maxDiffSize prDetails
      ([], env) pre = Inr (reviews, envb) \<and>
    isRelevantFile (detectLanguage (getFileExtension (filename failing)))
      (getFileExtension (filename failing)) \<and>
    patch failing \<noteq> [] \<and> int (length (patch failing)) \<le> maxDiffSize \<and>
    analyzeCode create jsonParse thisModel (world envb) (patch failing)
      (context_of (detectLanguage (getFileExtension (filename failing))) failing prDetails)
      = (Inl err, w)
    \<longrightarrow>
      (\<exists>st msg reviews' env'.
         err = ErrorObject st msg \<and>
         review_step (analyzeCode create jsonParse thisModel) formatComment maxDiffSize
             prDetails (reviews, envb) failing =
           Inr (reviews,
                \<lparr>world = w,
                 console = console envb @
                   [Reviewing (filename failing),
                    FailedToReview (filename failing) msg,
                    LoggedError (filename failing) err]\<rparr>) \<and>
         review_loop (analyzeCode create jsonParse thisModel) formatComment maxDiffSize
             maxFilesPerReview prDetails filteredFiles env =
           review_files (analyzeCode create jsonParse thisModel) formatComment maxDiffSize
             prDetails
             (reviews,
              \<lparr>world = w,
               console = console envb @
                 [Reviewing (filename failing),
                  FailedToReview (filename failing) msg,
                  LoggedError (filename failing) err]\<rparr>) post \<and>
         review_loop (analyzeCode create jsonParse thisModel) formatComment maxDiffSize
             maxFilesPerReview prDetails filteredFiles env = Inr (reviews', env') \<and>
         FailedToReview (filename failing) msg \<in> set (console env') \<and>
         LoggedError (filename failing) err \<in> set (console env') \<and>
         take (length reviews) reviews' = reviews))"
proof (intro conjI impI)
  let ?F = "analyzeCode create jsonParse thisModel"
  have nn: "\<forall>w d c e w'. ?F w d c = (Inl e, w') \<longrightarrow> e \<noteq> Nullish"
    using analyzeCode_rejects_value by blast
  show "\<exists>reviews' env'.
      review_loop ?F formatComment maxDiffSize maxFilesPerReview prDetails filteredFiles env
        = Inr (reviews', env') \<and>
      announced (console env') =
        announced (console env) @ map filename (slice0 filteredFiles maxFilesPerReview) \<and>
      outcomes (console env') =
        outcomes (console env) @ map filename (slice0 filteredFiles maxFilesPerReview)"
    using review_files_completes
      [OF nn, where formatComment = formatComment and maxDiffSize = maxDiffSize
        and prDetails = prDetails and st = "([], env)"
        and files = "slice0 filteredFiles maxFilesPerReview"]
    by (auto simp: review_loop_def announced_append outcomes_append)
  show "e \<noteq> Nullish" if "?F b diff ctx = (Inl e, b')"
    using that by (rule analyzeCode_rejects_value)
  assume a: "slice0 filteredFiles maxFilesPerReview = pre @ failing # post \<and>
    review_files ?F formatComment maxDiffSize prDetails ([], env) pre = Inr (reviews, envb) \<and>
    isRelevantFile (detectLanguage (getFileExtension (filename failing)))
      (getFileExtension (filename failing)) \<and>
    patch failing \<noteq> [] \<and> int (length (patch failing)) \<le> maxDiffSize \<and>
    ?F (world envb) (patch failing)
      (context_of (detectLanguage (getFileExtension (filename failing))) failing prDetails)
      = (Inl err, w)"
  then have "err \<noteq> Nullish"
    using analyzeCode_rejects_value by blast
  then obtain st msg where err: "err = ErrorObject st msg"
    by (cases err) simp_all
  let ?env2 = "\<lparr>world = w,
                 console = console envb @
                   [Reviewing (filename failing),
                    FailedToReview (filename failing) msg,
                    LoggedError (filename failing) err]\<rparr>"
  have s: "review_step ?F formatComment maxDiffSize prDetails (reviews, envb) failing
      = Inr (reviews, ?env2)"
    unfolding err using a err by (intro review_step_failure) simp_all
  have l: "review_loop ?F formatComment maxDiffSize maxFilesPerReview prDetails filteredFiles env
      = review_files ?F formatComment maxDiffSize prDetails (reviews, ?env2) post"
    using a s by (simp add: review_loop_def review_files_append)
  obtain rs' env' es more where
    f: "review_files ?F formatComment maxDiffSize prDetails (reviews, ?env2) post
          = Inr (rs', env')"
    and c: "console env' = console ?env2 @ es" and r: "rs' = reviews @ more"
    using review_files_completes
      [OF nn, where formatComment = formatComment and maxDiffSize = maxDiffSize
        and prDetails = prDetails and st = "(reviews, ?env2)" and files = post]
    by auto
  show "\<exists>st msg reviews' env'.
         err = ErrorObject st msg \<and>
         review_step ?F formatComment maxDiffSize prDetails (reviews, envb) failing =
           Inr (reviews,
                \<lparr>world = w,
                 console = console envb @
                   [Reviewing (filename failing),
                    FailedToReview (filename failing) msg,
                    LoggedError (filename failing) err]\<rparr>) \<and>
         review_loop ?F formatComment maxDiffSize maxFilesPerReview prDetails filteredFiles env =
           review_files ?F formatComment maxDiffSize prDetails
             (reviews,
              \<lparr>world = w,
               console = console envb @
                 [Reviewing (filename failing),
                  FailedToReview (filename failing) msg,
                  LoggedError (filename failing) err]\<rparr>) post \<and>
         review_loop ?F formatComment maxDiffSize maxFilesPerReview prDetails filteredFiles env
           = Inr (reviews', env') \<and>
         FailedToReview (filename failing) msg \<in> set (console env') \<and>
         LoggedError (filename failing) err \<in> set (console env') \<and>
         take (length reviews) reviews' = reviews"
    using err s l f c r
    by (intro exI [of _ st] exI [of _ msg] exI [of _ rs'] exI [of _ env']) simp
qed

text \<open>
  C9 at three files, where the client rejects with \<^verbatim>\<open>undefined\<close> for the second one: the
  issue finder turns the rejection into a \<^verbatim>\<open>TypeError\<close>, the loop records it, and the third
  file is still reviewed.
\<close>

theorem C9_failure_does_not_abort_loop_witness:
  "(case review_loop
      (analyzeCode
         (\<lambda>w model diff ctx.
            if ctx_filename ctx = ''b.js'' then (Inl Nullish, Suc w)
            else (Inr (Message (Text ''1. Unused variable'')), Suc w))
         (\<lambda>s. None) (Some ''gpt-4''))
      (\<lambda>i. ''body'') 5000 10 \<lparr>pr_title = ''Fix'', pr_body = None\<rparr>
      [\<lparr>filename = ''a.js'', status = ''modified'', additions = 1, deletions = 0,
        patch = ''@@ -1 +1 @@''\<rparr>,
       \<lparr>filename = ''b.js'', status = ''modified'', additions = 1, deletions = 0,
        patch = ''@@ -2 +2 @@''\<rparr>,
       \<lparr>filename = ''c.js'', status = ''added'', additions = 1, deletions = 0,
        patch = ''@@ -0,0 +1 @@''\<rparr>]
      \<lparr>world = \<lparr>remote = 0, logged = []\<rparr>, console = []\<rparr> of
      Inl thrown_env \<Rightarrow> None
    | Inr (rs, e) \<Rightarrow> Some (map review_filename rs, console e)) =
   Some ([''a.js'', ''c.js''],
         [Reviewing ''a.js'', Reviewed ''a.js'' 1,
          Reviewing ''b.js'', FailedToReview ''b.js'' (JStr ''TypeError''),
          LoggedError ''b.js'' TypeError,
          Reviewing ''c.js'', Reviewed ''c.js'' 1])"
proof -
  let ?create = "\<lambda>(w::nat) (model::string option) (diff::string) ctx.
            if ctx_filename ctx = ''b.js'' then (Inl Nullish, Suc w)
            else (Inr (Message (Text ''1. Unused variable'')), Suc w)"
  let ?jp = "\<lambda>s::string. None::analysis option"
  let ?F = "analyzeCode ?create ?jp (Some ''gpt-4'')"
  let ?fc = "\<lambda>i::issue. ''body''"
  let ?pr = "\<lparr>pr_title = ''Fix'', pr_body = None\<rparr>"
  let ?fa = "\<lparr>filename = ''a.js'', status = ''modified'', additions = 1, deletions = 0,
        patch = ''@@ -1 +1 @@''\<rparr>"
  let ?fb = "\<lparr>filename = ''b.js'', status = ''modified'', additions = 1, deletions = 0,
        patch = ''@@ -2 +2 @@''\<rparr>"
  let ?fcf = "\<lparr>filename = ''c.js'', status = ''added'', additions = 1, deletions = 0,
        patch = ''@@ -0,0 +1 @@''\<rparr>"
  let ?env0 = "\<lparr>world = \<lparr>remote = 0::nat, logged = []\<rparr>, console = []\<rparr>"
  let ?an = "parseTextAnalysis ''1. Unused variable''"
  let ?ra = "\<lparr>review_filename = ''a.js'',
      review_comments = parseAnalysisToComments ?fc ?an ?fa,
      review_analysis = ?an\<rparr>"
  let ?envb = "\<lparr>world = \<lparr>remote = Suc 0, logged = [AttemptingModel (Some ''gpt-4'')]\<rparr>,
      console = [Reviewing ''a.js'', Reviewed ''a.js'' 1]\<rparr>"
  let ?w = "\<lparr>remote = Suc (Suc 0),
      logged = [AttemptingModel (Some ''gpt-4''), AttemptingModel (Some ''gpt-4'')]\<rparr>"
  have H: "slice0 [?fa, ?fb, ?fcf] 10 = [?fa] @ ?fb # [?fcf] \<and>
    review_files ?F ?fc 5000 ?pr ([], ?env0) [?fa] = Inr ([?ra], ?envb) \<and>
    isRelevantFile (detectLanguage (getFileExtension (filename ?fb)))
      (getFileExtension (filename ?fb)) \<and>
    patch ?fb \<noteq> [] \<and> int (length (patch ?fb)) \<le> 5000 \<and>
    ?F (world ?envb) (patch ?fb)
      (context_of (detectLanguage (getFileExtension (filename ?fb))) ?fb ?pr)
      = (Inl TypeError, ?w)"
    by code_simp
  note T = C9_failure_does_not_abort_loop
    [where create = ?create and jsonParse = ?jp and thisModel = "Some ''gpt-4''"
       and formatComment = ?fc and maxDiffSize = 5000 and maxFilesPerReview = 10
       and prDetails = ?pr and filteredFiles = "[?fa, ?fb, ?fcf]" and env = ?env0
       and pre = "[?fa]" and failing = ?fb and post = "[?fcf]" and reviews = "[?ra]"
       and envb = ?envb and err = TypeError and w = ?w,
     THEN conjunct2, THEN conjunct2, THEN mp, OF H]
  then obtain st msg where e: "TypeError = ErrorObject st msg"
    and l: "review_loop ?F ?fc 5000 10 ?pr [?fa, ?fb, ?fcf] ?env0 =
      review_files ?F ?fc 5000 ?pr
        ([?ra],
         \<lparr>world = ?w,
          console = console ?envb @
            [Reviewing (filename ?fb), FailedToReview (filename ?fb) msg,
             LoggedError (filename ?fb) TypeError]\<rparr>) [?fcf]"
    by blast
  from e have msg: "msg = JStr ''TypeError''"
    by (simp add: TypeError_def)
  have E: "(case review_files ?F ?fc 5000 ?pr
        ([?ra],
         \<lparr>world = ?w,
          console = console ?envb @
            [Reviewing (filename ?fb), FailedToReview (filename ?fb) (JStr ''TypeError''),
             LoggedError (filename ?fb) TypeError]\<rparr>) [?fcf] of
      Inl thrown_env \<Rightarrow> None
    | Inr (rs, e) \<Rightarrow> Some (map review_filename rs, console e)) =
   Some ([''a.js'', ''c.js''],
         [Reviewing ''a.js'', Reviewed ''a.js'' 1,
          Reviewing ''b.js'', FailedToReview ''b.js'' (JStr ''TypeError''),
          LoggedError ''b.js'' TypeError,
          Reviewing ''c.js'', Reviewed ''c.js'' 1])"
    by code_simp
  show ?thesis
    unfolding l msg by (rule E)
qed

subsection \<open>Comments from issues\<close>

lemma foldl_push_map: "foldl (\<lambda>acc x. acc @ [f x]) acc0 xs = acc0 @ map f xs"
  by (induction xs arbitrary: acc0) simp_all

lemma parseAnalysisToComments_eq:
  "parseAnalysisToComments formatComment analysis file =
     (case issues analysis of None \<Rightarrow> []
      | Some is \<Rightarrow> map (comment_of formatComment file) is)"
  by (simp add: parseAnalysisToComments_def foldl_push_map split: option.splits)

text \<open>
  Claim C10: \<^verbatim>\<open>parseAnalysisToComments\<close> builds one comment per issue record, in order, so
  no issue is dropped. The line of the comment is \<^verbatim>\<open>issue.line\<close> when that value is truthy
  and 1 otherwise, in particular when it is absent, \<^verbatim>\<open>null\<close> or 0; the severity is
  \<^verbatim>\<open>issue.severity\<close> when truthy and \<^verbatim>\<open>info\<close> otherwise.
\<close>

theorem C10_line_and_severity_defaults:
  "(issues analysis = Some is \<longrightarrow>
      parseAnalysisToComments formatComment analysis file =
        map (comment_of formatComment file) is \<and>
      length (parseAnalysisToComments formatComment analysis file) = length is) \<and>
   comment_path (comment_of formatComment file issue) = filename file \<and>
   comment_body (comment_of formatComment file issue) = formatComment issue \<and>
   (truthy (issue_line issue) \<longrightarrow>
      comment_line (comment_of formatComment file issue) = issue_line issue) \<and>
   (issue_line issue = JUndefined \<or> issue_line issue = JNull \<or> issue_line issue = JNum 0 \<longrightarrow>
      comment_line (comment_of formatComment file issue) = JNum 1) \<and>
   (\<not> truthy (issue_line issue) \<longrightarrow>
      comment_line (comment_of formatComment file issue) = JNum 1) \<and>
   (truthy (issue_severity issue) \<longrightarrow>
      comment_severity (comment_of formatComment file issue) = issue_severity issue) \<and>
   (\<not> truthy (issue_severity issue) \<longrightarrow>
      comment_severity (comment_of formatComment file issue) = JStr ''info'')"
  by (auto simp: parseAnalysisToComments_eq comment_of_def js_or_def)

text \<open>C10 at an analysis with an issue that cites line 0 and names no severity.\<close>

theorem C10_line_and_severity_defaults_witness:
  "parseAnalysisToComments (\<lambda>i. ''body'')
     \<lparr>issues = Some
        [\<lparr>issue_line = JNum 0, issue_title = JStr ''t'', issue_description = JStr ''d'',
          issue_severity = JUndefined, issue_suggestion = JUndefined,
          issue_example = JUndefined, issue_language = JUndefined\<rparr>,
         \<lparr>issue_line = JNum 12, issue_title = JStr ''u'', issue_description = JStr ''e'',
          issue_severity = JStr ''high'', issue_suggestion = JUndefined,
          issue_example = JUndefined, issue_language = JUndefined\<rparr>]\<rparr>
     \<lparr>filename = ''x.js'', status = ''modified'', additions = 1, deletions = 0,
      patch = ''@@ -1 +1 @@''\<rparr> =
   [\<lparr>comment_path = ''x.js'', comment_line = JNum 1, comment_body = ''body'',
     comment_severity = JStr ''info''\<rparr>,
    \<lparr>comment_path = ''x.js'', comment_line = JNum 12, comment_body = ''body'',
     comment_severity = JStr ''high''\<rparr>]"
proof -
  let ?i0 = "\<lparr>issue_line = JNum 0, issue_title = JStr ''t'', issue_description = JStr ''d'',
          issue_severity = JUndefined, issue_suggestion = JUndefined,
          issue_example = JUndefined, issue_language = JUndefined\<rparr>"
  let ?i1 = "\<lparr>issue_line = JNum 12, issue_title = JStr ''u'', issue_description = JStr ''e'',
          issue_severity = JStr ''high'', issue_suggestion = JUndefined,
          issue_example = JUndefined, issue_language = JUndefined\<rparr>"
  let ?a = "\<lparr>issues = Some [?i0, ?i1]\<rparr>"
  let ?f = "\<lparr>filename = ''x.js'', status = ''modified'', additions = 1, deletions = 0,
      patch = ''@@ -1 +1 @@''\<rparr>"
  let ?fc = "\<lambda>i::issue. ''body''"
  have c0: "comment_of ?fc ?f ?i0 =
      \<lparr>comment_path = ''x.js'', comment_line = JNum 1, comment_body = ''body'',
       comment_severity = JStr ''info''\<rparr>"
    using C10_line_and_severity_defaults [of ?a "[?i0, ?i1]" ?fc ?f ?i0]
    by (intro reviewComment.equality) simp_all
  have c1: "comment_of ?fc ?f ?i1 =
      \<lparr>comment_path = ''x.js'', comment_line = JNum 12, comment_body = ''body'',
       comment_severity = JStr ''high''\<rparr>"
    using C10_line_and_severity_defaults [of ?a "[?i0, ?i1]" ?fc ?f ?i1]
    by (intro reviewComment.equality) simp_all
  have m: "parseAnalysisToComments ?fc ?a ?f = map (comment_of ?fc ?f) [?i0, ?i1]"
    using C10_line_and_severity_defaults [of ?a "[?i0, ?i1]" ?fc ?f ?i0] by simp
  show ?thesis
    unfolding m list.map c0 c1 by (rule refl)
qed

end
